theory Spec2Isabelle
  imports Main "HOL-Library.Sublist" "HOL-Library.Word"
begin

section \<open>Python strings and paths used by the mirror script\<close>

text \<open>
  The script \<^verbatim>\<open>src/mirror/main.py\<close> uses a handful of operations of Python's
  \<^verbatim>\<open>str\<close> and \<^verbatim>\<open>pathlib\<close>. They are written out here as they behave in
  CPython (3.8 to 3.13): \<^verbatim>\<open>str.join\<close>, \<^verbatim>\<open>str.split\<close> on a one-character
  separator, \<^verbatim>\<open>str.replace\<close>, \<^verbatim>\<open>PurePath.name\<close>, \<^verbatim>\<open>PurePath.suffix\<close>,
  \<^verbatim>\<open>PurePath.with_suffix\<close> and the \<^verbatim>\<open>/\<close> operator of paths.
\<close>

type_synonym bytes = "8 word list"

fun join :: "string \<Rightarrow> string list \<Rightarrow> string" where
  "join sep [] = []"
| "join sep [x] = x"
| "join sep (x # y # ys) = x @ sep @ join sep (y # ys)"

fun split_on :: "char \<Rightarrow> string \<Rightarrow> string list" where
  "split_on c [] = [[]]"
| "split_on c (x # xs) =
     (if x = c then [] # split_on c xs
      else (case split_on c xs of
              [] \<Rightarrow> [[x]]
            | w # ws \<Rightarrow> (x # w) # ws))"

text \<open>
  \<^verbatim>\<open>s.replace(old, new)\<close>: every non-overlapping occurrence of \<open>old\<close>, found from
  the left, is replaced; with an empty \<open>old\<close> Python puts \<open>new\<close> before every
  character and at the end.
\<close>

function replace :: "string \<Rightarrow> string \<Rightarrow> string \<Rightarrow> string" where
  "replace old new [] = (if old = [] then new else [])"
| "replace old new (c # cs) =
     (if old = [] then new @ c # replace old new cs
      else if prefix old (c # cs) then new @ replace old new (drop (length old) (c # cs))
      else c # replace old new cs)"
  by pat_completeness auto
termination
  by (relation "measure (\<lambda>(old, new, s). length s)") auto

text \<open>
  A path is the list of its components below the root, as \<^verbatim>\<open>PurePosixPath.parts\<close>
  lists them for an absolute path (the temporary directory of a file job is absolute).
  \<^verbatim>\<open>str(p)\<close> is \<open>path_str\<close>; \<^verbatim>\<open>p / s\<close> is \<open>path_join\<close>: the segments of
  \<open>s\<close> that are empty or \<^verbatim>\<open>.\<close> are dropped, and an absolute \<open>s\<close> replaces
  \<open>p\<close>.
\<close>

type_synonym path = "string list"

definition path_str :: "path \<Rightarrow> string" where
  "path_str p = (if p = [] then ''/'' else concat (map (\<lambda>c. ''/'' @ c) p))"

definition path_parts :: "string \<Rightarrow> path" where
  "path_parts s = filter (\<lambda>c. c \<noteq> [] \<and> c \<noteq> ''.'') (split_on CHR ''/'' s)"

definition path_join :: "path \<Rightarrow> string \<Rightarrow> path" where
  "path_join p s =
     (if s \<noteq> [] \<and> hd s = CHR ''/'' then path_parts s else p @ path_parts s)"

definition path_name :: "path \<Rightarrow> string" where
  "path_name p = (if p = [] then [] else last p)"

text \<open>\<^verbatim>\<open>name.rfind('.')\<close>: the index of the last dot, or \<open>-1\<close>.\<close>

definition rfind :: "char \<Rightarrow> string \<Rightarrow> int" where
  "rfind c s =
     (if c \<in> set s
      then int (length s) - 1 - int (length (takeWhile (\<lambda>x. x \<noteq> c) (rev s)))
      else - 1)"

text \<open>
  \<^verbatim>\<open>PurePath.suffix\<close>:
  \<^verbatim>\<open>i = name.rfind('.'); return name[i:] if 0 < i < len(name) - 1 else ''\<close>.
\<close>

definition path_suffix :: "path \<Rightarrow> string" where
  "path_suffix p =
     (let name = path_name p; i = rfind CHR ''.'' name
      in if 0 < i \<and> i < int (length name) - 1 then drop (nat i) name else [])"

section \<open>Exceptions, the file system and the outside world\<close>

datatype exn =
    ValueError string
  | FileNotFoundError
  | IsADirectoryError
  | BadGzipFile
  | RequestException
  | OSError
  | OverflowError

text \<open>
  \<^verbatim>\<open>PurePath.with_suffix(suffix)\<close>: refuses a suffix with a separator, one that
  does not start with a dot, the suffix \<^verbatim>\<open>.\<close> and a path with an empty name;
  otherwise the old suffix of the name (if any) is cut off and the new one appended.
\<close>

definition with_suffix :: "path \<Rightarrow> string \<Rightarrow> exn + path" where
  "with_suffix p sfx =
     (if CHR ''/'' \<in> set sfx \<or> (sfx \<noteq> [] \<and> hd sfx \<noteq> CHR ''.'') \<or> sfx = ''.''
      then Inl (ValueError ''Invalid suffix'')
      else if path_name p = [] then Inl (ValueError ''empty name'')
      else
        (let name = path_name p; old_suffix = path_suffix p
         in Inr (butlast p @
              [if old_suffix = [] then name @ sfx
               else take (length name - length old_suffix) name @ sfx])))"

text \<open>
  The part of the file system the script touches: a map from paths to directories and
  files. Opening a path for writing (\<^verbatim>\<open>open(p, 'wb')\<close>) creates or truncates the
  file and fails on a directory; the root and a path ending in \<^verbatim>\<open>..\<close> are
  directories. (Parents of the paths the script opens exist: they are the temporary
  directory of the job.)
\<close>

datatype node = Dir | File bytes

type_synonym fsys = "path \<rightharpoonup> node"

definition is_dir :: "fsys \<Rightarrow> path \<Rightarrow> bool" where
  "is_dir d p = (p = [] \<or> last p = ''..'' \<or> d p = Some Dir)"

definition open_wb :: "path \<Rightarrow> fsys \<Rightarrow> exn + fsys" where
  "open_wb p d = (if is_dir d p then Inl IsADirectoryError else Inr (d(p \<mapsto> File [])))"

text \<open>
  What an external tool or server answers is not decided by the script. A child process
  either exits with a return code or starting and reading it raises; an HTTP download
  raises before the output file is opened (transport error, status that is not 2xx,
  malformed length header), delivers the whole body, or breaks off after part of it;
  the gzip reader delivers the decompressed bytes, or raises after having delivered
  some of them.
\<close>

datatype proc_outcome = Exited int | Raised

datatype fetch_outcome = FetchRaises | FetchBody bytes | FetchPartial bytes

datatype gz_result = Decoded bytes | Malformed bytes

text \<open>
  The environment fixes these answers: the \<open>n\<close>-th invocation of a tool (counted
  from 0) with a command line gets an outcome, the \<open>n\<close>-th download of a URL gets a
  response, \<^verbatim>\<open>tempfile\<close> names the \<open>n\<close>-th temporary directory, and
  \<^verbatim>\<open>gzip\<close> decodes a byte sequence. The platform may refuse a sleep: after
  \<open>n\<close> sleeps, \<open>sleep_fails n d\<close> says that it refuses one of \<open>d\<close> seconds.
\<close>

record env =
  skopeo :: "nat \<Rightarrow> string list \<Rightarrow> proc_outcome"
  oras_login_tool :: "nat \<Rightarrow> string list \<Rightarrow> proc_outcome"
  oras_push_tool :: "nat \<Rightarrow> string list \<Rightarrow> proc_outcome"
  http_get :: "nat \<Rightarrow> string \<Rightarrow> fetch_outcome"
  gzip_decode :: "bytes \<Rightarrow> gz_result"
  mkdtemp :: "nat \<Rightarrow> path"
  sleep_fails :: "nat \<Rightarrow> int \<Rightarrow> bool"

text \<open>The effects of a run, in order, and the state they leave.\<close>

datatype event =
    EvCopy "string list" proc_outcome
  | EvSleep int
  | EvLogin "string list" proc_outcome
  | EvFetch string path fetch_outcome
  | EvPush "string list" proc_outcome
  | EvMkTmp path
  | EvRmTmp path

record world =
  trace :: "event list"
  disk :: fsys

fun is_copy :: "event \<Rightarrow> bool" where
  "is_copy (EvCopy c r) = True"
| "is_copy e = False"

fun is_sleep :: "event \<Rightarrow> bool" where
  "is_sleep (EvSleep d) = True"
| "is_sleep e = False"

fun is_login :: "event \<Rightarrow> bool" where
  "is_login (EvLogin c r) = True"
| "is_login e = False"

fun is_fetch :: "event \<Rightarrow> bool" where
  "is_fetch (EvFetch u p r) = True"
| "is_fetch e = False"

fun is_push :: "event \<Rightarrow> bool" where
  "is_push (EvPush c r) = True"
| "is_push e = False"

fun is_mktmp :: "event \<Rightarrow> bool" where
  "is_mktmp (EvMkTmp p) = True"
| "is_mktmp e = False"

fun is_rmtmp :: "event \<Rightarrow> bool" where
  "is_rmtmp (EvRmTmp p) = True"
| "is_rmtmp e = False"

definition count :: "(event \<Rightarrow> bool) \<Rightarrow> world \<Rightarrow> nat" where
  "count P w = length (filter P (trace w))"

definition emit :: "event \<Rightarrow> world \<Rightarrow> world" where
  "emit e w = w\<lparr>trace := trace w @ [e]\<rparr>"

text \<open>
  \<^verbatim>\<open>time.sleep(d)\<close> with an integer \<open>d\<close>, as \<^verbatim>\<open>retry_delay\<close> is read from the
  configuration without a check (line 343). It raises \<^verbatim>\<open>ValueError\<close> on a negative
  \<open>d\<close>, and \<^verbatim>\<open>OverflowError\<close> on a \<open>d\<close> whose nanoseconds do not fit into 64 bits
  (the largest delay that does is 9223372036 seconds, as \<open>2 ^ 63 = 9223372036854775808\<close>).
  A delay in between goes to the platform, which sleeps or refuses: where the
  interpreter sleeps until a deadline on the monotonic clock, a deadline beyond the
  range of that clock is refused with \<^verbatim>\<open>OSError\<close>, so the answer depends on the clock
  and belongs to the environment. A refused sleep takes no time and leaves no event, and
  the same sleep asked for again right after it is refused again (the clock has only
  advanced). \<open>sleepable e d\<close> says that \<^verbatim>\<open>time.sleep\<close> always accepts \<open>d\<close>.
\<close>

definition sleep :: "env \<Rightarrow> int \<Rightarrow> world \<Rightarrow> (exn + unit) \<times> world" where
  "sleep e d w =
     (if d < 0 then (Inl (ValueError ''sleep length must be non-negative''), w)
      else if 9223372036 < d then (Inl OverflowError, w)
      else if sleep_fails e (count is_sleep w) d then (Inl OSError, w)
      else (Inr (), emit (EvSleep d) w))"

definition sleepable :: "env \<Rightarrow> int \<Rightarrow> bool" where
  "sleepable e d = (0 \<le> d \<and> d \<le> 9223372036 \<and> (\<forall>n. \<not> sleep_fails e n d))"

section \<open>The transformer registry and \<^verbatim>\<open>gunzip_transformer\<close>\<close>

type_synonym transformer = "path \<Rightarrow> fsys \<Rightarrow> (exn + path) \<times> fsys"

type_synonym registry = "string \<rightharpoonup> transformer"

text \<open>
  \<^verbatim>\<open>gunzip_transformer\<close> (lines 68 to 77). \<^verbatim>\<open>gzip.open(input_path, 'rb')\<close> opens
  the input and reads nothing yet; \<^verbatim>\<open>open(output_path, 'wb')\<close> then creates or
  truncates the output; \<^verbatim>\<open>shutil.copyfileobj\<close> only then reads the input, as it is
  on disk at that moment, decodes it and writes what the decoder delivers.
\<close>

definition gunzip_transformer :: "env \<Rightarrow> transformer" where
  "gunzip_transformer e input_path d =
     (case with_suffix input_path [] of
        Inl x \<Rightarrow> (Inl x, d)
      | Inr output_path \<Rightarrow>
          if is_dir d input_path then (Inl IsADirectoryError, d)
          else (case d input_path of
             None \<Rightarrow> (Inl FileNotFoundError, d)
           | Some Dir \<Rightarrow> (Inl IsADirectoryError, d)
           | Some (File z0) \<Rightarrow>
               (case open_wb output_path d of
                  Inl x \<Rightarrow> (Inl x, d)
                | Inr d1 \<Rightarrow>
                    (case d1 input_path of
                       Some (File z) \<Rightarrow>
                         (case gzip_decode e z of
                            Decoded b \<Rightarrow> (Inr output_path, d1(output_path \<mapsto> File b))
                          | Malformed b \<Rightarrow> (Inl BadGzipFile, d1(output_path \<mapsto> File b)))
                     | _ \<Rightarrow> (Inl FileNotFoundError, d1)))))"

text \<open>The registry as the module leaves it after loading: one entry, \<^verbatim>\<open>gunzip\<close>.\<close>

definition TRANSFORMERS :: "env \<Rightarrow> registry" where
  "TRANSFORMERS e = [''gunzip'' \<mapsto> gunzip_transformer e]"

text \<open>
  A transform step is a mapping of the configuration; \<^verbatim>\<open>transform.get("type")\<close> is
  \<open>map_of transform ''type''\<close>, and a missing type is not in the registry either.
  \<^verbatim>\<open>apply_transforms\<close> (lines 147 to 161) reads the module's registry; here the
  registry is an argument, and \<^verbatim>\<open>main\<close> passes \<open>TRANSFORMERS\<close>. A transformer
  acts on the file system only.
\<close>

type_synonym transform_step = "(string \<times> string) list"

definition unknown_transformer :: "string option \<Rightarrow> exn" where
  "unknown_transformer t =
     ValueError (''Unknown transformer type: '' @ (case t of None \<Rightarrow> ''None'' | Some n \<Rightarrow> n))"

fun apply_transforms :: "registry \<Rightarrow> path \<Rightarrow> transform_step list \<Rightarrow> fsys \<Rightarrow> (exn + path) \<times> fsys" where
  "apply_transforms reg current_path [] d = (Inr current_path, d)"
| "apply_transforms reg current_path (transform # transforms) d =
     (case map_of transform ''type'' of
        None \<Rightarrow> (Inl (unknown_transformer None), d)
      | Some transform_type \<Rightarrow>
          (case reg transform_type of
             None \<Rightarrow> (Inl (unknown_transformer (Some transform_type)), d)
           | Some transformer \<Rightarrow>
               (case transformer current_path d of
                  (Inl x, d') \<Rightarrow> (Inl x, d')
                | (Inr p, d') \<Rightarrow> apply_transforms reg p transforms d')))"

section \<open>Downloading, pushing and logging in\<close>

text \<open>
  \<^verbatim>\<open>download_file\<close> (lines 129 to 144): the request is made first; only a response
  that is accepted opens the output file and streams the body into it.
\<close>

definition download_file :: "env \<Rightarrow> string \<Rightarrow> path \<Rightarrow> world \<Rightarrow> (exn + unit) \<times> world" where
  "download_file e url output_path w =
     (let r = http_get e (count is_fetch w) url;
          w1 = emit (EvFetch url output_path r) w
      in case r of
           FetchRaises \<Rightarrow> (Inl RequestException, w1)
         | FetchBody b \<Rightarrow>
             (case open_wb output_path (disk w1) of
                Inl x \<Rightarrow> (Inl x, w1)
              | Inr d \<Rightarrow> (Inr (), w1\<lparr>disk := d(output_path \<mapsto> File b)\<rparr>))
         | FetchPartial b \<Rightarrow>
             (case open_wb output_path (disk w1) of
                Inl x \<Rightarrow> (Inl x, w1)
              | Inr d \<Rightarrow> (Inl RequestException, w1\<lparr>disk := d(output_path \<mapsto> File b)\<rparr>)))"

definition PLACEHOLDER :: string where
  "PLACEHOLDER = ''{{GITHUB_REPOSITORY_OWNER}}''"

text \<open>
  \<^verbatim>\<open>push_file_to_registry\<close> (lines 187 to 246): the destination is resolved, the
  command line built, and the tool run once; an exception of the child process is
  caught and gives \<^verbatim>\<open>False\<close>, as a return code other than 0 does. An empty media
  type is false in Python and adds no flag.
\<close>

definition push_cmd :: "path \<Rightarrow> string \<Rightarrow> string list \<Rightarrow> string \<Rightarrow> string option \<Rightarrow> string list" where
  "push_cmd file_path destination tags registry_owner mime_type =
     (let destination' = replace PLACEHOLDER registry_owner destination;
          tags_str = join '','' tags;
          dest_full = destination' @ '':'' @ tags_str
      in [''oras'', ''push'', ''--disable-path-validation'', dest_full, path_str file_path] @
         (case mime_type of
            None \<Rightarrow> []
          | Some m \<Rightarrow> if m = [] then [] else [''--artifact-type'', m]))"

definition push_file_to_registry ::
  "env \<Rightarrow> path \<Rightarrow> string \<Rightarrow> string list \<Rightarrow> string \<Rightarrow> string \<Rightarrow> string \<Rightarrow> string option \<Rightarrow>
   world \<Rightarrow> bool \<times> world" where
  "push_file_to_registry e file_path destination tags registry_owner registry_username
      registry_password mime_type w =
     (let cmd = push_cmd file_path destination tags registry_owner mime_type;
          r = oras_push_tool e (count is_push w) cmd
      in (r = Exited 0, emit (EvPush cmd r) w))"

text \<open>
  \<^verbatim>\<open>oras_login\<close> (lines 163 to 185) has no \<^verbatim>\<open>try\<close>: an exception of the child
  process leaves the function.
\<close>

definition oras_login :: "env \<Rightarrow> string \<Rightarrow> string \<Rightarrow> world \<Rightarrow> (exn + bool) \<times> world" where
  "oras_login e registry_username registry_password w =
     (let cmd = [''oras'', ''login'', ''--username'', registry_username,
                 ''--password'', registry_password, ''ghcr.io''];
          r = oras_login_tool e (count is_login w) cmd;
          w1 = emit (EvLogin cmd r) w
      in case r of
           Raised \<Rightarrow> (Inl OSError, w1)
         | Exited rc \<Rightarrow> (Inr (rc = 0), w1))"

section \<open>\<^verbatim>\<open>mirror_image\<close>\<close>

text \<open>
  The \<^verbatim>\<open>except Exception\<close> clause of both retry loops (lines 119 to 122 and 295 to
  298): sleep unless this was the last attempt. An exception raised here is not caught.
\<close>

definition on_exception :: "env \<Rightarrow> int \<Rightarrow> int \<Rightarrow> int \<Rightarrow> world \<Rightarrow> (exn + unit) \<times> world" where
  "on_exception e attempt retry_attempts retry_delay w =
     (if attempt < retry_attempts then sleep e retry_delay w else (Inr (), w))"

definition copy_cmd :: "string \<Rightarrow> string \<Rightarrow> string \<Rightarrow> string \<Rightarrow> string list" where
  "copy_cmd source_full dest_full registry_username registry_password =
     [''skopeo'', ''copy'', ''--dest-creds'', registry_username @ '':'' @ registry_password,
      ''docker://'' @ source_full, ''docker://'' @ dest_full]"

text \<open>One run of the copy tool: lines 92 to 109.\<close>

definition skopeo_copy :: "env \<Rightarrow> string list \<Rightarrow> world \<Rightarrow> proc_outcome \<times> world" where
  "skopeo_copy e cmd w =
     (let r = skopeo e (count is_copy w) cmd in (r, emit (EvCopy cmd r) w))"

text \<open>
  One iteration of the loop of \<^verbatim>\<open>mirror_image\<close> (lines 91 to 122). The result is
  \<open>Inr (Some b)\<close> when the iteration returns \<open>b\<close> from the function, \<open>Inr None\<close>
  when the loop goes on, and \<open>Inl x\<close> when \<open>x\<close> leaves the \<^verbatim>\<open>try\<close> statement.
  The sleep after a failed copy stands inside the \<^verbatim>\<open>try\<close>: what it raises is
  handled by the \<^verbatim>\<open>except\<close> clause.
\<close>

definition mirror_image_iteration ::
  "env \<Rightarrow> string list \<Rightarrow> int \<Rightarrow> int \<Rightarrow> int \<Rightarrow> world \<Rightarrow> (exn + bool option) \<times> world" where
  "mirror_image_iteration e cmd retry_attempts retry_delay attempt w =
     (case skopeo_copy e cmd w of
        (Exited rc, w1) \<Rightarrow>
          if rc = 0 then (Inr (Some True), w1)
          else if attempt < retry_attempts then
            (case sleep e retry_delay w1 of
               (Inr u, w2) \<Rightarrow> (Inr None, w2)
             | (Inl x, w2) \<Rightarrow>
                 (case on_exception e attempt retry_attempts retry_delay w2 of
                    (Inr u, w3) \<Rightarrow> (Inr None, w3)
                  | (Inl y, w3) \<Rightarrow> (Inl y, w3)))
          else (Inr None, w1)
      | (Raised, w1) \<Rightarrow>
          (case on_exception e attempt retry_attempts retry_delay w1 of
             (Inr u, w3) \<Rightarrow> (Inr None, w3)
           | (Inl y, w3) \<Rightarrow> (Inl y, w3)))"

text \<open>
  The loop over \<^verbatim>\<open>range(1, retry_attempts + 1)\<close>; after the last iteration the
  function returns \<^verbatim>\<open>False\<close> (lines 125 and 126).
\<close>

fun mirror_image_attempts ::
  "env \<Rightarrow> string list \<Rightarrow> int \<Rightarrow> int \<Rightarrow> int list \<Rightarrow> world \<Rightarrow> (exn + bool) \<times> world" where
  "mirror_image_attempts e cmd retry_attempts retry_delay [] w = (Inr False, w)"
| "mirror_image_attempts e cmd retry_attempts retry_delay (attempt # rest) w =
     (case mirror_image_iteration e cmd retry_attempts retry_delay attempt w of
        (Inl x, w') \<Rightarrow> (Inl x, w')
      | (Inr (Some b), w') \<Rightarrow> (Inr b, w')
      | (Inr None, w') \<Rightarrow> mirror_image_attempts e cmd retry_attempts retry_delay rest w')"

definition image_cmd :: "string \<Rightarrow> string \<Rightarrow> string \<Rightarrow> string \<Rightarrow> string \<Rightarrow> string \<Rightarrow> string list" where
  "image_cmd source destination tag registry_owner registry_username registry_password =
     (let destination' = replace PLACEHOLDER registry_owner destination;
          source_full = source @ '':'' @ tag;
          dest_full = destination' @ '':'' @ tag
      in copy_cmd source_full dest_full registry_username registry_password)"

definition mirror_image ::
  "env \<Rightarrow> string \<Rightarrow> string \<Rightarrow> string \<Rightarrow> string \<Rightarrow> string \<Rightarrow> string \<Rightarrow> int \<Rightarrow> int \<Rightarrow>
   world \<Rightarrow> (exn + bool) \<times> world" where
  "mirror_image e source destination tag registry_owner registry_username registry_password
      retry_attempts retry_delay w =
     mirror_image_attempts e
       (image_cmd source destination tag registry_owner registry_username registry_password)
       retry_attempts retry_delay [1..retry_attempts] w"

section \<open>\<^verbatim>\<open>mirror_file\<close>\<close>

text \<open>
  The operation a file job retries (lines 271 to 288): download, transform when the
  list of transforms is not empty, push. \<open>Inl x\<close> is an exception of the download or
  of a transform; \<open>Inr b\<close> is what the push returned.
\<close>

definition file_operation ::
  "env \<Rightarrow> registry \<Rightarrow> string \<Rightarrow> path \<Rightarrow> string \<Rightarrow> string list \<Rightarrow> transform_step list \<Rightarrow>
   string \<Rightarrow> string \<Rightarrow> string \<Rightarrow> string option \<Rightarrow> world \<Rightarrow> (exn + bool) \<times> world" where
  "file_operation e reg source download_path destination tags transforms registry_owner
      registry_username registry_password mime_type w =
     (case download_file e source download_path w of
        (Inl x, w1) \<Rightarrow> (Inl x, w1)
      | (Inr u, w1) \<Rightarrow>
          (case (if transforms = [] then (Inr download_path, disk w1)
                 else apply_transforms reg download_path transforms (disk w1)) of
             (Inl x, d2) \<Rightarrow> (Inl x, w1\<lparr>disk := d2\<rparr>)
           | (Inr processed_path, d2) \<Rightarrow>
               (case push_file_to_registry e processed_path destination tags registry_owner
                       registry_username registry_password mime_type (w1\<lparr>disk := d2\<rparr>) of
                  (b, w3) \<Rightarrow> (Inr b, w3))))"

text \<open>One iteration of the loop of \<^verbatim>\<open>mirror_file\<close> (lines 270 to 298).\<close>

definition mirror_file_iteration ::
  "env \<Rightarrow> registry \<Rightarrow> string \<Rightarrow> path \<Rightarrow> string \<Rightarrow> string list \<Rightarrow> transform_step list \<Rightarrow>
   string \<Rightarrow> string \<Rightarrow> string \<Rightarrow> string option \<Rightarrow> int \<Rightarrow> int \<Rightarrow> int \<Rightarrow> world \<Rightarrow>
   (exn + bool option) \<times> world" where
  "mirror_file_iteration e reg source download_path destination tags transforms registry_owner
      registry_username registry_password mime_type retry_attempts retry_delay attempt w =
     (case file_operation e reg source download_path destination tags transforms
             registry_owner registry_username registry_password mime_type w of
        (Inr True, w1) \<Rightarrow> (Inr (Some True), w1)
      | (Inr False, w1) \<Rightarrow>
          if attempt < retry_attempts then
            (case sleep e retry_delay w1 of
               (Inr u, w2) \<Rightarrow> (Inr None, w2)
             | (Inl x, w2) \<Rightarrow>
                 (case on_exception e attempt retry_attempts retry_delay w2 of
                    (Inr u, w3) \<Rightarrow> (Inr None, w3)
                  | (Inl y, w3) \<Rightarrow> (Inl y, w3)))
          else (Inr None, w1)
      | (Inl x, w1) \<Rightarrow>
          (case on_exception e attempt retry_attempts retry_delay w1 of
             (Inr u, w3) \<Rightarrow> (Inr None, w3)
           | (Inl y, w3) \<Rightarrow> (Inl y, w3)))"

fun mirror_file_attempts ::
  "env \<Rightarrow> registry \<Rightarrow> string \<Rightarrow> path \<Rightarrow> string \<Rightarrow> string list \<Rightarrow> transform_step list \<Rightarrow>
   string \<Rightarrow> string \<Rightarrow> string \<Rightarrow> string option \<Rightarrow> int \<Rightarrow> int \<Rightarrow> int list \<Rightarrow> world \<Rightarrow>
   (exn + bool) \<times> world" where
  "mirror_file_attempts e reg source download_path destination tags transforms registry_owner
      registry_username registry_password mime_type retry_attempts retry_delay [] w =
     (Inr False, w)"
| "mirror_file_attempts e reg source download_path destination tags transforms registry_owner
      registry_username registry_password mime_type retry_attempts retry_delay (attempt # rest) w =
     (case mirror_file_iteration e reg source download_path destination tags transforms
             registry_owner registry_username registry_password mime_type retry_attempts
             retry_delay attempt w of
        (Inl x, w') \<Rightarrow> (Inl x, w')
      | (Inr (Some b), w') \<Rightarrow> (Inr b, w')
      | (Inr None, w') \<Rightarrow>
          mirror_file_attempts e reg source download_path destination tags transforms
            registry_owner registry_username registry_password mime_type retry_attempts
            retry_delay rest w')"

text \<open>
  \<^verbatim>\<open>tempfile.TemporaryDirectory()\<close> as a context manager: the directory is made on
  entry, and on every exit (return or exception) it is removed with all it holds.
\<close>

definition make_tmpdir :: "env \<Rightarrow> world \<Rightarrow> path \<times> world" where
  "make_tmpdir e w =
     (let tmpdir = mkdtemp e (count is_mktmp w)
      in (tmpdir, (emit (EvMkTmp tmpdir) w)\<lparr>disk := (disk w)(tmpdir \<mapsto> Dir)\<rparr>))"

definition cleanup :: "path \<Rightarrow> world \<Rightarrow> world" where
  "cleanup tmpdir w =
     (emit (EvRmTmp tmpdir) w)\<lparr>disk := (\<lambda>p. if prefix tmpdir p then None else disk w p)\<rparr>"

definition mirror_file ::
  "env \<Rightarrow> registry \<Rightarrow> string \<Rightarrow> string \<Rightarrow> string list \<Rightarrow> transform_step list \<Rightarrow>
   string \<Rightarrow> string \<Rightarrow> string \<Rightarrow> string option \<Rightarrow> int \<Rightarrow> int \<Rightarrow> world \<Rightarrow>
   (exn + bool) \<times> world" where
  "mirror_file e reg source destination tags transforms registry_owner registry_username
      registry_password mime_type retry_attempts retry_delay w =
     (case make_tmpdir e w of
        (tmpdir, w0) \<Rightarrow>
          (let filename = last (split_on CHR ''/'' source);
               download_path = path_join tmpdir filename
           in case mirror_file_attempts e reg source download_path destination tags transforms
                     registry_owner registry_username registry_password mime_type
                     retry_attempts retry_delay [1..retry_attempts] w0 of
                (r, w1) \<Rightarrow> (r, cleanup tmpdir w1)))"

section \<open>\<^verbatim>\<open>main\<close>: the mirroring phase\<close>

text \<open>
  The configuration as \<^verbatim>\<open>main\<close> reads it from line 342 on: the \<^verbatim>\<open>docker\<close> and
  \<^verbatim>\<open>files\<close> lists (a missing list is empty) and the two settings. A file
  configuration has the fields of an image configuration and two more.
\<close>

record mirror_cfg =
  cfg_source :: string
  cfg_destination :: string
  cfg_tags :: "string list"

record file_cfg = mirror_cfg +
  cfg_transforms :: "transform_step list"
  cfg_mime :: "string option"

record config =
  cfg_docker :: "mirror_cfg list"
  cfg_files :: "file_cfg list"
  cfg_retry_attempts :: int
  cfg_retry_delay :: int

text \<open>The loop over the tags of one image configuration (lines 369 to 373).\<close>

fun mirror_tags ::
  "env \<Rightarrow> string \<Rightarrow> string \<Rightarrow> string \<Rightarrow> string \<Rightarrow> string \<Rightarrow> int \<Rightarrow> int \<Rightarrow> string list \<Rightarrow>
   int \<Rightarrow> world \<Rightarrow> (exn + int) \<times> world" where
  "mirror_tags e source destination registry_owner registry_username registry_password
      retry_attempts retry_delay [] failed_mirrors w = (Inr failed_mirrors, w)"
| "mirror_tags e source destination registry_owner registry_username registry_password
      retry_attempts retry_delay (tag # tags) failed_mirrors w =
     (case mirror_image e source destination tag registry_owner registry_username
             registry_password retry_attempts retry_delay w of
        (Inl x, w1) \<Rightarrow> (Inl x, w1)
      | (Inr ok, w1) \<Rightarrow>
          mirror_tags e source destination registry_owner registry_username registry_password
            retry_attempts retry_delay tags
            (if \<not> ok then failed_mirrors + 1 else failed_mirrors) w1)"

text \<open>The loop over the image configurations (lines 358 to 375).\<close>

fun mirror_docker ::
  "env \<Rightarrow> string \<Rightarrow> string \<Rightarrow> string \<Rightarrow> int \<Rightarrow> int \<Rightarrow> mirror_cfg list \<Rightarrow> int \<Rightarrow> world \<Rightarrow>
   (exn + int) \<times> world" where
  "mirror_docker e registry_owner registry_username registry_password retry_attempts
      retry_delay [] failed_mirrors w = (Inr failed_mirrors, w)"
| "mirror_docker e registry_owner registry_username registry_password retry_attempts
      retry_delay (mirror # mirrors) failed_mirrors w =
     (case mirror_tags e (cfg_source mirror) (cfg_destination mirror) registry_owner
             registry_username registry_password retry_attempts retry_delay (cfg_tags mirror)
             failed_mirrors w of
        (Inl x, w1) \<Rightarrow> (Inl x, w1)
      | (Inr failed_mirrors', w1) \<Rightarrow>
          mirror_docker e registry_owner registry_username registry_password retry_attempts
            retry_delay mirrors failed_mirrors' w1)"

text \<open>The loop over the file configurations (lines 387 to 422).\<close>

fun mirror_files ::
  "env \<Rightarrow> string \<Rightarrow> string \<Rightarrow> string \<Rightarrow> int \<Rightarrow> int \<Rightarrow> file_cfg list \<Rightarrow> int \<Rightarrow> world \<Rightarrow>
   (exn + int) \<times> world" where
  "mirror_files e registry_owner registry_username registry_password retry_attempts
      retry_delay [] failed_mirrors w = (Inr failed_mirrors, w)"
| "mirror_files e registry_owner registry_username registry_password retry_attempts
      retry_delay (file_config # file_mirrors) failed_mirrors w =
     (case mirror_file e (TRANSFORMERS e) (cfg_source file_config)
             (cfg_destination file_config) (cfg_tags file_config)
             (cfg_transforms file_config) registry_owner registry_username registry_password
             (cfg_mime file_config) retry_attempts retry_delay w of
        (Inl x, w1) \<Rightarrow> (Inl x, w1)
      | (Inr ok, w1) \<Rightarrow>
          mirror_files e registry_owner registry_username registry_password retry_attempts
            retry_delay file_mirrors
            (if \<not> ok then failed_mirrors + 1 else failed_mirrors) w1)"

text \<open>
  How the mirroring phase of \<^verbatim>\<open>main\<close> (lines 350 to 428) ends: an exception
  that nothing catches, \<^verbatim>\<open>sys.exit(1)\<close> after a failed login (line 385), or the
  final test of \<^verbatim>\<open>failed_mirrors\<close> (line 424) with the count reached.
\<close>

datatype ending = Uncaught exn | LoginFailed | Counted int

definition mirror_all ::
  "env \<Rightarrow> config \<Rightarrow> string \<Rightarrow> string \<Rightarrow> string \<Rightarrow> world \<Rightarrow> ending \<times> world" where
  "mirror_all e config registry_owner registry_username registry_password w =
     (case mirror_docker e registry_owner registry_username registry_password
             (cfg_retry_attempts config) (cfg_retry_delay config) (cfg_docker config) 0 w of
        (Inl x, w1) \<Rightarrow> (Uncaught x, w1)
      | (Inr failed_mirrors, w1) \<Rightarrow>
          if cfg_files config \<noteq> [] then
            (case oras_login e registry_username registry_password w1 of
               (Inl x, w2) \<Rightarrow> (Uncaught x, w2)
             | (Inr False, w2) \<Rightarrow> (LoginFailed, w2)
             | (Inr True, w2) \<Rightarrow>
                 (case mirror_files e registry_owner registry_username registry_password
                         (cfg_retry_attempts config) (cfg_retry_delay config)
                         (cfg_files config) failed_mirrors w2 of
                    (Inl x, w3) \<Rightarrow> (Uncaught x, w3)
                  | (Inr failed_mirrors', w3) \<Rightarrow> (Counted failed_mirrors', w3)))
          else (Counted failed_mirrors, w1))"

text \<open>
  The exit status of the process: 1 after an uncaught exception and after
  \<^verbatim>\<open>sys.exit(1)\<close>, 0 when \<^verbatim>\<open>main\<close> returns.
\<close>

fun exit_code :: "ending \<Rightarrow> int" where
  "exit_code (Uncaught x) = 1"
| "exit_code LoginFailed = 1"
| "exit_code (Counted failed_mirrors) = (if failed_mirrors > 0 then 1 else 0)"

definition main :: "env \<Rightarrow> config \<Rightarrow> string \<Rightarrow> string \<Rightarrow> string \<Rightarrow> world \<Rightarrow> int \<times> world" where
  "main e config registry_owner registry_username registry_password w =
     (case mirror_all e config registry_owner registry_username registry_password w of
        (r, w') \<Rightarrow> (exit_code r, w'))"

section \<open>Notions used to state the properties\<close>

text \<open>
  One step of the transform pipeline as a function on the pipeline's state (the current
  path, or the exception raised so far, and the file system): the step of a failed
  pipeline does nothing, the step of a running one looks its type up and applies it.
\<close>

fun run_transform :: "registry \<Rightarrow> (exn + path) \<times> fsys \<Rightarrow> transform_step \<Rightarrow> (exn + path) \<times> fsys" where
  "run_transform reg (Inl x, d) transform = (Inl x, d)"
| "run_transform reg (Inr current_path, d) transform =
     (case map_of transform ''type'' of
        None \<Rightarrow> (Inl (unknown_transformer None), d)
      | Some transform_type \<Rightarrow>
          (case reg transform_type of
             None \<Rightarrow> (Inl (unknown_transformer (Some transform_type)), d)
           | Some transformer \<Rightarrow> transformer current_path d))"

text \<open>
  A concrete environment for the examples: the copy tool fails on its first invocation
  and succeeds afterwards, login and push succeed, every download delivers the same
  five bytes, and the decoder is a stand-in for \<^verbatim>\<open>gzip\<close> with its behaviour at
  the ends: an empty input decodes to nothing (as \<^verbatim>\<open>gzip\<close> reads an empty file),
  an input with the magic number \<^verbatim>\<open>1f 8b\<close> decodes to what follows it, and any
  other input is refused.
\<close>

definition demo_decode :: "bytes \<Rightarrow> gz_result" where
  "demo_decode z =
     (if z = [] then Decoded []
      else if take 2 z = [0x1f, 0x8b] then Decoded (drop 2 z)
      else Malformed [])"

definition demo_env :: env where
  "demo_env =
     \<lparr> skopeo = (\<lambda>n cmd. if n = 0 then Exited 1 else Exited 0),
       oras_login_tool = (\<lambda>n cmd. Exited 0),
       oras_push_tool = (\<lambda>n cmd. Exited 0),
       http_get = (\<lambda>n url. FetchBody [0x1f, 0x8b, 1, 2, 3]),
       gzip_decode = demo_decode,
       mkdtemp = (\<lambda>n. [''tmp'', ''job'']),
       sleep_fails = (\<lambda>n d. False) \<rparr>"

definition demo_world :: world where
  "demo_world = \<lparr> trace = [], disk = Map.empty \<rparr>"

text \<open>
  The two retry loops have one shape: iterate over the attempt numbers, stop at the
  first iteration that returns or raises. This is that shape, over any iteration.
\<close>

fun attempts_loop ::
  "(int \<Rightarrow> world \<Rightarrow> (exn + bool option) \<times> world) \<Rightarrow> int list \<Rightarrow> world \<Rightarrow> (exn + bool) \<times> world" where
  "attempts_loop it [] w = (Inr False, w)"
| "attempts_loop it (attempt # rest) w =
     (case it attempt w of
        (Inl x, w') \<Rightarrow> (Inl x, w')
      | (Inr (Some b), w') \<Rightarrow> (Inr b, w')
      | (Inr None, w') \<Rightarrow> attempts_loop it rest w')"

text \<open>
  For the retry properties: the world in which the next attempt starts after a failed
  one (the operation has run and the loop has slept), the world in which attempt
  \<open>j + 1\<close> starts when the \<open>j\<close> attempts before it failed, and what it means
  that the operation, retried from \<open>w\<close>, succeeds at attempt \<open>k\<close> for the first
  time, or at none of the first \<open>n\<close> attempts.
\<close>

definition next_attempt :: "int \<Rightarrow> (world \<Rightarrow> 'r \<times> world) \<Rightarrow> world \<Rightarrow> world" where
  "next_attempt d op w = emit (EvSleep d) (snd (op w))"

definition attempt_world :: "int \<Rightarrow> (world \<Rightarrow> 'r \<times> world) \<Rightarrow> nat \<Rightarrow> world \<Rightarrow> world" where
  "attempt_world d op j w = (next_attempt d op ^^ j) w"

definition first_success_at ::
  "('r \<Rightarrow> bool) \<Rightarrow> int \<Rightarrow> (world \<Rightarrow> 'r \<times> world) \<Rightarrow> world \<Rightarrow> nat \<Rightarrow> bool" where
  "first_success_at ok d op w k =
     (1 \<le> k \<and> ok (fst (op (attempt_world d op (k - 1) w))) \<and>
      list_all (\<lambda>j. \<not> ok (fst (op (attempt_world d op j w)))) [0..<k - 1])"

definition never_succeeds ::
  "('r \<Rightarrow> bool) \<Rightarrow> int \<Rightarrow> (world \<Rightarrow> 'r \<times> world) \<Rightarrow> world \<Rightarrow> nat \<Rightarrow> bool" where
  "never_succeeds ok d op w n =
     list_all (\<lambda>j. \<not> ok (fst (op (attempt_world d op j w)))) [0..<n]"

text \<open>
  Success of one attempt: the copy tool exited with status 0 (line 101); the operation of
  a file job came to its \<^verbatim>\<open>return True\<close> (line 284).
\<close>

definition copy_ok :: "proc_outcome \<Rightarrow> bool" where
  "copy_ok r = (r = Exited 0)"

definition file_ok :: "exn + bool \<Rightarrow> bool" where
  "file_ok r = (r = Inr True)"

text \<open>A sleep of exactly the given number of seconds.\<close>

fun slept_for :: "int \<Rightarrow> event \<Rightarrow> bool" where
  "slept_for d (EvSleep d') = (d' = d)"
| "slept_for d ev = False"

text \<open>
  \<open>extends Q w w'\<close>: the trace of \<open>w'\<close> is the trace of \<open>w\<close> followed by
  events that all satisfy \<open>Q\<close>.
\<close>

definition extends :: "(event \<Rightarrow> bool) \<Rightarrow> world \<Rightarrow> world \<Rightarrow> bool" where
  "extends Q w w' = (\<exists>evs. trace w' = trace w @ evs \<and> list_all Q evs)"

text \<open>
  A step whose type is \<^verbatim>\<open>not in TRANSFORMERS\<close> (line 154): no type at all, or a
  type without an entry.
\<close>

definition unregistered :: "registry \<Rightarrow> transform_step \<Rightarrow> bool" where
  "unregistered reg transform =
     (case map_of transform ''type'' of
        None \<Rightarrow> True
      | Some t \<Rightarrow> (case reg t of None \<Rightarrow> True | Some transformer \<Rightarrow> False))"

text \<open>
  The events of a file job between making and removing its temporary directory: a
  download of the job's source to the job's download path, a push, or a sleep.
\<close>

fun job_event :: "string \<Rightarrow> path \<Rightarrow> event \<Rightarrow> bool" where
  "job_event s p (EvFetch url q r) = (url = s \<and> q = p)"
| "job_event s p (EvPush c r) = True"
| "job_event s p (EvSleep d) = True"
| "job_event s p ev = False"

text \<open>
  For the templating property: a copy event whose destination argument (the sixth word
  of the command line) is \<^verbatim>\<open>docker://<base>:<tag>\<close> for one of the tags, and a push
  event whose reference (the fourth word) is the given one. Other events pass.
\<close>

fun copy_resolved :: "string \<Rightarrow> string list \<Rightarrow> event \<Rightarrow> bool" where
  "copy_resolved base tags (EvCopy c r) =
     list_ex (\<lambda>tag. c ! 5 = ''docker://'' @ base @ '':'' @ tag) tags"
| "copy_resolved base tags ev = True"

fun push_resolved :: "string \<Rightarrow> event \<Rightarrow> bool" where
  "push_resolved ref (EvPush c r) = (c ! 3 = ref)"
| "push_resolved ref ev = True"

text \<open>
  The events of the image phase of \<^verbatim>\<open>main\<close> (copies and sleeps), the events of the
  file phase after the login (anything but a copy or a login), and the command line of
  the login (lines 165 to 170).
\<close>

fun image_phase_event :: "event \<Rightarrow> bool" where
  "image_phase_event (EvCopy c r) = True"
| "image_phase_event (EvSleep d) = True"
| "image_phase_event ev = False"

fun file_phase_event :: "event \<Rightarrow> bool" where
  "file_phase_event (EvCopy c r) = False"
| "file_phase_event (EvLogin c r) = False"
| "file_phase_event ev = True"

definition login_cmd :: "string \<Rightarrow> string \<Rightarrow> string list" where
  "login_cmd registry_username registry_password =
     [''oras'', ''login'', ''--username'', registry_username,
      ''--password'', registry_password, ''ghcr.io'']"

text \<open>
  A configuration for the examples: one image with two tags, one file job with a
  gunzip step and a media type, two attempts, one second of delay.
\<close>

definition demo_config :: config where
  "demo_config =
     \<lparr> cfg_docker =
         [\<lparr> cfg_source = ''docker.io/nginx'',
            cfg_destination = ''ghcr.io/{{GITHUB_REPOSITORY_OWNER}}/nginx'',
            cfg_tags = [''v1'', ''v2''] \<rparr>],
       cfg_files =
         [\<lparr> cfg_source = ''https://example.com/a/data.gz'',
            cfg_destination = ''ghcr.io/{{GITHUB_REPOSITORY_OWNER}}/data'',
            cfg_tags = [''latest''],
            cfg_transforms = [[(''type'', ''gunzip'')]],
            cfg_mime = Some ''application/custom'' \<rparr>],
       cfg_retry_attempts = 2,
       cfg_retry_delay = 1 \<rparr>"

text \<open>
  For the examples with a delay that \<^verbatim>\<open>time.sleep\<close> refuses: an environment whose
  copy tool always exits with status 1, and the configuration above with a delay of
  10000000000 seconds.
\<close>

definition failing_copy_env :: env where
  "failing_copy_env = demo_env\<lparr>skopeo := \<lambda>n cmd. Exited 1\<rparr>"

definition long_delay_config :: config where
  "long_delay_config = demo_config\<lparr>cfg_retry_delay := 10000000000\<rparr>"

text \<open>
  For the exit status: what a list of calls returns when each call starts in the world
  the call before it left, up to and including the first call that ends with an
  exception (nothing in \<^verbatim>\<open>main\<close> catches it, so no call follows), and the world
  after the last of these calls; whether one of the results is an exception; the
  number of calls that returned \<^verbatim>\<open>False\<close>; and the value of \<^verbatim>\<open>failed_mirrors\<close>
  after a list of results, or the exception that ended the loop.
\<close>

fun outcomes :: "('a \<Rightarrow> world \<Rightarrow> (exn + bool) \<times> world) \<Rightarrow> 'a list \<Rightarrow> world \<Rightarrow> (exn + bool) list" where
  "outcomes call [] w = []"
| "outcomes call (x # xs) w =
     (case call x w of
        (Inl err, w1) \<Rightarrow> [Inl err]
      | (Inr ok, w1) \<Rightarrow> Inr ok # outcomes call xs w1)"

fun final_world :: "('a \<Rightarrow> world \<Rightarrow> (exn + bool) \<times> world) \<Rightarrow> 'a list \<Rightarrow> world \<Rightarrow> world" where
  "final_world call [] w = w"
| "final_world call (x # xs) w =
     (case call x w of
        (Inl err, w1) \<Rightarrow> w1
      | (Inr ok, w1) \<Rightarrow> final_world call xs w1)"

definition raised :: "(exn + bool) list \<Rightarrow> bool" where
  "raised rs = list_ex isl rs"

definition failures :: "(exn + bool) list \<Rightarrow> int" where
  "failures rs = int (length (filter (\<lambda>r. r = Inr False) rs))"

fun tally :: "int \<Rightarrow> (exn + bool) list \<Rightarrow> exn + int" where
  "tally failed_mirrors [] = Inr failed_mirrors"
| "tally failed_mirrors (Inl err # rs) = Inl err"
| "tally failed_mirrors (Inr ok # rs) =
     tally (if \<not> ok then failed_mirrors + 1 else failed_mirrors) rs"

text \<open>
  The units of work of \<^verbatim>\<open>main\<close>: one call of \<^verbatim>\<open>mirror_image\<close> for every tag of
  every image configuration, in order; then, after the login, one call of
  \<^verbatim>\<open>mirror_file\<close> for every file configuration. \<open>image_results\<close> is what the
  calls of the image phase return, \<open>login_result\<close> what a login after the image
  phase returns and \<open>file_results\<close> what the calls of the file phase return after
  it.
\<close>

definition image_units :: "config \<Rightarrow> (mirror_cfg \<times> string) list" where
  "image_units config =
     concat (map (\<lambda>mirror. map (Pair mirror) (cfg_tags mirror)) (cfg_docker config))"

definition image_call ::
  "env \<Rightarrow> config \<Rightarrow> string \<Rightarrow> string \<Rightarrow> string \<Rightarrow> mirror_cfg \<times> string \<Rightarrow> world \<Rightarrow>
   (exn + bool) \<times> world" where
  "image_call e config ow u pw unit =
     mirror_image e (cfg_source (fst unit)) (cfg_destination (fst unit)) (snd unit) ow u pw
       (cfg_retry_attempts config) (cfg_retry_delay config)"


definition image_results :: "env \<Rightarrow> config \<Rightarrow> string \<Rightarrow> string \<Rightarrow> string \<Rightarrow> world \<Rightarrow> (exn + bool) list" where
  "image_results e config ow u pw w = outcomes (image_call e config ow u pw) (image_units config) w"

definition after_images :: "env \<Rightarrow> config \<Rightarrow> string \<Rightarrow> string \<Rightarrow> string \<Rightarrow> world \<Rightarrow> world" where
  "after_images e config ow u pw w =
     final_world (image_call e config ow u pw) (image_units config) w"



section \<open>Paths and the gunzip transformer\<close>

lemma split_on_nonempty: "split_on c s \<noteq> []"
  by (induction s) (auto split: list.splits)

lemma with_suffix_empty_no_suffix:
  assumes "path_name p \<noteq> []" "path_suffix p = []"
  shows "with_suffix p [] = Inr p"
proof -
  from assms(1) have "p \<noteq> []" by (auto simp: path_name_def)
  then have "butlast p @ [last p] = p" by simp
  with assms show ?thesis
    by (simp add: with_suffix_def path_name_def Let_def split: if_splits)
qed

lemma with_suffix_empty_suffix:
  assumes "path_name p \<noteq> []" "path_suffix p \<noteq> []"
  shows "\<exists>q. with_suffix p [] = Inr q \<and> q \<noteq> p \<and> butlast q = butlast p
            \<and> length (path_name q) < length (path_name p)"
proof -
  let ?name = "path_name p"
  let ?stem = "take (length ?name - length (path_suffix p)) ?name"
  let ?q = "butlast p @ [?stem]"
  have w: "with_suffix p [] = Inr ?q"
    using assms by (simp add: with_suffix_def Let_def)
  from assms(2) have "0 < length (path_suffix p)" by simp
  moreover from assms(1) have "0 < length ?name" by simp
  ultimately have len: "length ?stem < length ?name" by simp
  have nq: "path_name ?q = ?stem" by (simp add: path_name_def)
  have "?q \<noteq> p"
  proof
    assume "?q = p"
    then have "path_name ?q = path_name p" by simp
    with nq len show False by simp
  qed
  with w len nq show ?thesis by simp
qed

lemma gunzip_in_place:
  assumes "path_name p \<noteq> []" "path_suffix p = []" "d p = Some (File z)" "\<not> is_dir d p"
  shows "gunzip_transformer e p d =
           (case gzip_decode e [] of
              Decoded b \<Rightarrow> (Inr p, d(p \<mapsto> File b))
            | Malformed b \<Rightarrow> (Inl BadGzipFile, d(p \<mapsto> File b)))"
  using assms
  by (simp add: gunzip_transformer_def with_suffix_empty_no_suffix open_wb_def
      split: gz_result.splits)

text \<open>
  C8. For an input path with a final component (a name that is not empty) that has no
  suffix, \<^verbatim>\<open>with_suffix("")\<close> gives the input path back, so \<^verbatim>\<open>gunzip_transformer\<close> opens for writing the file
  it reads: the file is truncated before the first read, what is decoded is the empty
  file, and the result is written to the input path. The output path differs from the
  input path when the final component has a suffix.
\<close>

theorem gunzip_output_is_input_without_suffix:
  assumes "path_name p \<noteq> []"
  shows "(path_suffix p = [] \<longrightarrow>
            with_suffix p [] = Inr p \<and>
            (\<forall>z. d p = Some (File z) \<and> \<not> is_dir d p \<longrightarrow>
               gunzip_transformer e p d =
                 (case gzip_decode e [] of
                    Decoded b \<Rightarrow> (Inr p, d(p \<mapsto> File b))
                  | Malformed b \<Rightarrow> (Inl BadGzipFile, d(p \<mapsto> File b))))) \<and>
         (path_suffix p \<noteq> [] \<longrightarrow> (\<exists>q. with_suffix p [] = Inr q \<and> q \<noteq> p))"
proof (intro conjI impI allI)
  assume "path_suffix p = []"
  with assms show "with_suffix p [] = Inr p" by (rule with_suffix_empty_no_suffix)
next
  fix z
  assume "path_suffix p = []" and "d p = Some (File z) \<and> \<not> is_dir d p"
  with assms show "gunzip_transformer e p d =
      (case gzip_decode e [] of
         Decoded b \<Rightarrow> (Inr p, d(p \<mapsto> File b))
       | Malformed b \<Rightarrow> (Inl BadGzipFile, d(p \<mapsto> File b)))"
    by (simp add: gunzip_in_place)
next
  assume "path_suffix p \<noteq> []"
  with assms show "\<exists>q. with_suffix p [] = Inr q \<and> q \<noteq> p"
    using with_suffix_empty_suffix by blast
qed

section \<open>The transform pipeline\<close>

lemma foldl_run_transform_Inl:
  "foldl (run_transform reg) (Inl x, d) ts = (Inl x, d)"
  by (induction ts) simp_all

lemma apply_transforms_foldl:
  "apply_transforms reg p ts d = foldl (run_transform reg) (Inr p, d) ts"
proof (induction ts arbitrary: p d)
  case Nil
  show ?case by simp
next
  case (Cons t ts)
  show ?case
  proof (cases "map_of t ''type''")
    case None
    then show ?thesis by (simp add: foldl_run_transform_Inl)
  next
    case (Some n)
    note ty = this
    show ?thesis
    proof (cases "reg n")
      case None
      with ty show ?thesis by (simp add: foldl_run_transform_Inl)
    next
      case (Some f)
      obtain r d' where f: "f p d = (r, d')" by (cases "f p d")
      show ?thesis
      proof (cases r)
        case (Inl x)
        with f Some ty show ?thesis by (simp add: foldl_run_transform_Inl)
      next
        case (Inr q)
        with f Some ty Cons.IH [of q d'] show ?thesis by simp
      qed
    qed
  qed
qed

text \<open>
  C9. \<^verbatim>\<open>apply_transforms\<close> with no step returns the input path (and leaves the file
  system alone); with any list of steps its result is the left fold of the steps
  over the initial path, in the order of the list.
\<close>

theorem apply_transforms_is_left_fold:
  "apply_transforms reg p [] d = (Inr p, d) \<and>
   apply_transforms reg p ts d = foldl (run_transform reg) (Inr p, d) ts"
  by (simp add: apply_transforms_foldl)

theorem gunzip_output_is_input_without_suffix_witness:
  "path_name [''tmp'', ''job'', ''latest''] \<noteq> [] \<and>
   path_suffix [''tmp'', ''job'', ''latest''] = [] \<and>
   with_suffix [''tmp'', ''job'', ''latest''] [] = Inr [''tmp'', ''job'', ''latest''] \<and>
   gunzip_transformer demo_env [''tmp'', ''job'', ''latest'']
       [[''tmp'', ''job'', ''latest''] \<mapsto> File [0x1f, 0x8b, 1, 2, 3]] =
     (Inr [''tmp'', ''job'', ''latest''], [[''tmp'', ''job'', ''latest''] \<mapsto> File []]) \<and>
   path_suffix [''tmp'', ''job'', ''latest.gz''] \<noteq> [] \<and>
   (\<exists>q. with_suffix [''tmp'', ''job'', ''latest.gz''] [] = Inr q \<and> q \<noteq> [''tmp'', ''job'', ''latest.gz''])"
proof -
  let ?p = "[''tmp'', ''job'', ''latest'']"
  let ?d = "[?p \<mapsto> File [0x1f, 0x8b, 1, 2, 3]]"
  have n: "path_name ?p \<noteq> []" by (simp add: path_name_def)
  have s: "path_suffix ?p = []" by (simp add: path_suffix_def path_name_def rfind_def)
  have f: "?d ?p = Some (File [0x1f, 0x8b, 1, 2, 3]) \<and> \<not> is_dir ?d ?p"
    by (simp add: is_dir_def)
  have g: "gzip_decode demo_env [] = Decoded []"
    by (simp add: demo_env_def demo_decode_def)
  let ?q = "[''tmp'', ''job'', ''latest.gz'']"
  have n': "path_name ?q \<noteq> []" by (simp add: path_name_def)
  have s': "path_suffix ?q \<noteq> []" by (simp add: path_suffix_def path_name_def rfind_def)
  from gunzip_output_is_input_without_suffix [OF n, of ?d demo_env] s f g
    gunzip_output_is_input_without_suffix [OF n', of ?d demo_env] s' n
  show ?thesis by simp
qed

theorem apply_transforms_is_left_fold_witness:
  "apply_transforms (TRANSFORMERS demo_env) [''tmp'', ''job'', ''a.gz''] [] Map.empty =
     (Inr [''tmp'', ''job'', ''a.gz''], Map.empty) \<and>
   apply_transforms (TRANSFORMERS demo_env) [''tmp'', ''job'', ''a.gz'']
       [[(''type'', ''gunzip'')], [(''type'', ''bzip2'')]] Map.empty =
     foldl (run_transform (TRANSFORMERS demo_env)) (Inr [''tmp'', ''job'', ''a.gz''], Map.empty)
       [[(''type'', ''gunzip'')], [(''type'', ''bzip2'')]]"
  using apply_transforms_is_left_fold [of "TRANSFORMERS demo_env" "[''tmp'', ''job'', ''a.gz'']"
      Map.empty "[[(''type'', ''gunzip'')], [(''type'', ''bzip2'')]]"]
  by simp

section \<open>Traces\<close>

lemma trace_emit [simp]: "trace (emit ev w) = trace w @ [ev]"
  by (simp add: emit_def)

lemma disk_emit [simp]: "disk (emit ev w) = disk w"
  by (simp add: emit_def)

lemma count_emit [simp]: "count P (emit ev w) = count P w + (if P ev then 1 else 0)"
  by (simp add: count_def)

lemma count_disk_update [simp]: "count P (w\<lparr>disk := d\<rparr>) = count P w"
  by (simp add: count_def)

section \<open>No attempt at all\<close>

lemma mirror_tags_zero:
  "mirror_tags e s dst ow u pw 0 dl tags f w = (Inr (f + int (length tags)), w)"
  by (induction tags arbitrary: f) (simp_all add: mirror_image_def)

lemma mirror_file_zero:
  "fst (mirror_file e reg s dst tags ts ow u pw mime 0 dl w) = Inr False \<and>
   trace (snd (mirror_file e reg s dst tags ts ow u pw mime 0 dl w)) =
     trace w @ [EvMkTmp (mkdtemp e (count is_mktmp w)), EvRmTmp (mkdtemp e (count is_mktmp w))]"
  by (simp add: mirror_file_def make_tmpdir_def cleanup_def Let_def)

lemma mirror_files_zero:
  "fst (mirror_files e ow u pw 0 dl fcs f w) = Inr (f + int (length fcs)) \<and>
   filter (\<lambda>ev. is_fetch ev \<or> is_push ev) (trace (snd (mirror_files e ow u pw 0 dl fcs f w))) =
     filter (\<lambda>ev. is_fetch ev \<or> is_push ev) (trace w)"
proof (induction fcs arbitrary: f w)
  case Nil
  show ?case by simp
next
  case (Cons fc fcs)
  obtain r w1 where m: "mirror_file e (TRANSFORMERS e) (cfg_source fc) (cfg_destination fc)
      (cfg_tags fc) (cfg_transforms fc) ow u pw (cfg_mime fc) 0 dl w = (r, w1)"
    by (cases "mirror_file e (TRANSFORMERS e) (cfg_source fc) (cfg_destination fc)
      (cfg_tags fc) (cfg_transforms fc) ow u pw (cfg_mime fc) 0 dl w")
  with mirror_file_zero [of e "TRANSFORMERS e" "cfg_source fc" "cfg_destination fc"
      "cfg_tags fc" "cfg_transforms fc" ow u pw "cfg_mime fc" dl w]
  have r: "r = Inr False"
    and t: "trace w1 = trace w @ [EvMkTmp (mkdtemp e (count is_mktmp w)),
                                  EvRmTmp (mkdtemp e (count is_mktmp w))]"
    by simp_all
  from t have "filter (\<lambda>ev. is_fetch ev \<or> is_push ev) (trace w1) =
      filter (\<lambda>ev. is_fetch ev \<or> is_push ev) (trace w)"
    by simp
  with m r Cons.IH [of "f + 1" w1] show ?case by simp
qed

text \<open>
  C10. With \<^verbatim>\<open>retry_attempts = 0\<close> the loop of \<^verbatim>\<open>mirror_image\<close> runs no
  iteration: the function returns \<^verbatim>\<open>False\<close> and the world is as before (nothing
  was copied). \<^verbatim>\<open>mirror_file\<close> returns \<^verbatim>\<open>False\<close> as well, and all it did was
  making and removing its temporary directory: nothing was fetched or pushed. In
  \<^verbatim>\<open>main\<close> every tag and every file job then counts as a failure.
\<close>

theorem zero_attempts_no_operation:
  "mirror_image e s dst tag ow u pw 0 dl w = (Inr False, w) \<and>
   fst (mirror_file e reg s dst tags ts ow u pw mime 0 dl w) = Inr False \<and>
   trace (snd (mirror_file e reg s dst tags ts ow u pw mime 0 dl w)) =
     trace w @ [EvMkTmp (mkdtemp e (count is_mktmp w)), EvRmTmp (mkdtemp e (count is_mktmp w))] \<and>
   mirror_tags e s dst ow u pw 0 dl tags f w = (Inr (f + int (length tags)), w) \<and>
   fst (mirror_files e ow u pw 0 dl fcs f w) = Inr (f + int (length fcs)) \<and>
   filter (\<lambda>ev. is_fetch ev \<or> is_push ev) (trace (snd (mirror_files e ow u pw 0 dl fcs f w))) =
     filter (\<lambda>ev. is_fetch ev \<or> is_push ev) (trace w)"
  using mirror_file_zero [of e reg s dst tags ts ow u pw mime dl w]
    mirror_files_zero [of e ow u pw dl fcs f w]
  by (simp add: mirror_tags_zero) (simp add: mirror_image_def)

section \<open>The retry loops\<close>

lemma mirror_image_attempts_loop:
  "mirror_image_attempts e c n d as w = attempts_loop (mirror_image_iteration e c n d) as w"
  by (induction as arbitrary: w) (auto split: prod.splits sum.splits option.splits)

lemma mirror_file_attempts_loop:
  "mirror_file_attempts e reg s p dst tags ts ow u pw mime n d as w =
     attempts_loop (mirror_file_iteration e reg s p dst tags ts ow u pw mime n d) as w"
  by (induction as arbitrary: w) (auto split: prod.splits sum.splits option.splits)

lemma sleep_sleepable: "sleepable e d \<Longrightarrow> sleep e d w = (Inr (), emit (EvSleep d) w)"
  by (simp add: sleep_def sleepable_def)

lemma mirror_image_iteration_ok:
  "fst (skopeo_copy e c w) = Exited 0 \<Longrightarrow>
   mirror_image_iteration e c n d a w = (Inr (Some True), snd (skopeo_copy e c w))"
  by (cases "skopeo_copy e c w") (simp add: mirror_image_iteration_def)

lemma mirror_image_iteration_fail:
  "sleepable e d \<or> \<not> a < n \<Longrightarrow> fst (skopeo_copy e c w) \<noteq> Exited 0 \<Longrightarrow>
   mirror_image_iteration e c n d a w =
     (Inr None, if a < n then next_attempt d (skopeo_copy e c) w else snd (skopeo_copy e c w))"
  by (cases "skopeo_copy e c w")
    (auto simp add: mirror_image_iteration_def next_attempt_def on_exception_def sleep_sleepable
      split: proc_outcome.splits)

lemma mirror_file_iteration_ok:
  "fst (file_operation e reg s p dst tags ts ow u pw mime w) = Inr True \<Longrightarrow>
   mirror_file_iteration e reg s p dst tags ts ow u pw mime n d a w =
     (Inr (Some True), snd (file_operation e reg s p dst tags ts ow u pw mime w))"
  by (cases "file_operation e reg s p dst tags ts ow u pw mime w")
    (simp add: mirror_file_iteration_def)

lemma mirror_file_iteration_fail:
  "sleepable e d \<or> \<not> a < n \<Longrightarrow>
   fst (file_operation e reg s p dst tags ts ow u pw mime w) \<noteq> Inr True \<Longrightarrow>
   mirror_file_iteration e reg s p dst tags ts ow u pw mime n d a w =
     (Inr None,
      if a < n then next_attempt d (file_operation e reg s p dst tags ts ow u pw mime) w
      else snd (file_operation e reg s p dst tags ts ow u pw mime w))"
  by (cases "file_operation e reg s p dst tags ts ow u pw mime w")
    (auto simp add: mirror_file_iteration_def next_attempt_def on_exception_def sleep_sleepable
      split: sum.splits bool.splits)

lemma attempt_world_0 [simp]: "attempt_world d op 0 w = w"
  by (simp add: attempt_world_def)

lemma attempt_world_Suc: "attempt_world d op (Suc j) w = attempt_world d op j (next_attempt d op w)"
  by (simp add: attempt_world_def funpow_swap1)

lemma list_all_upt_Suc:
  "list_all P [0..<Suc m] = (P 0 \<and> list_all (\<lambda>j. P (Suc j)) [0..<m])"
proof -
  have e: "[0..<Suc m] = 0 # map Suc [0..<m]"
    by (simp add: upt_conv_Cons map_Suc_upt del: upt_Suc)
  show ?thesis unfolding e by (simp add: list.pred_map comp_def)
qed

lemma first_success_at_1:
  "first_success_at ok d op w (Suc 0) = ok (fst (op w))"
  by (simp add: first_success_at_def)

lemma first_success_at_Suc:
  "first_success_at ok d op w (Suc (Suc k)) =
     (\<not> ok (fst (op w)) \<and> first_success_at ok d op (next_attempt d op w) (Suc k))"
  unfolding first_success_at_def
  by (simp only: diff_Suc_1 list_all_upt_Suc attempt_world_Suc) auto

lemma never_succeeds_Suc:
  "never_succeeds ok d op w (Suc m) =
     (\<not> ok (fst (op w)) \<and> never_succeeds ok d op (next_attempt d op w) m)"
  unfolding never_succeeds_def
  by (simp only: list_all_upt_Suc attempt_world_Suc attempt_world_0)

lemma attempts_loop_success:
  assumes ok: "\<And>a w. ok (fst (op w)) \<Longrightarrow> it a w = (Inr (Some True), snd (op w))"
    and fail: "\<And>a w. \<not> ok (fst (op w)) \<Longrightarrow> a < n \<Longrightarrow> S \<Longrightarrow>
                 it a w = (Inr None, next_attempt d op w)"
  shows "first_success_at ok d op w k \<Longrightarrow> a + int k - 1 \<le> n \<Longrightarrow> S \<or> k = 1 \<Longrightarrow>
         attempts_loop it [a..n] w = (Inr True, snd (op (attempt_world d op (k - 1) w)))"
proof (induction k arbitrary: a w)
  case 0
  then show ?case by (simp add: first_success_at_def)
next
  case (Suc k)
  show ?case
  proof (cases k)
    case 0
    with Suc.prems have s: "ok (fst (op w))" and le: "a \<le> n"
      by (simp_all add: first_success_at_1)
    from le have "[a..n] = a # [a + 1..n]" by (rule upto_rec1)
    with ok [OF s, of a] 0 show ?thesis by simp
  next
    case (Suc k')
    with Suc.prems have f: "\<not> ok (fst (op w))"
      and rest: "first_success_at ok d op (next_attempt d op w) (Suc k')"
      and lt: "a < n" and le: "(a + 1) + int (Suc k') - 1 \<le> n" and S: S
      by (simp_all add: first_success_at_Suc)
    from lt have u: "[a..n] = a # [a + 1..n]" by (simp add: upto_rec1)
    from Suc.IH [of "next_attempt d op w" "a + 1"] rest le Suc S
    have "attempts_loop it [a + 1..n] (next_attempt d op w) =
            (Inr True, snd (op (attempt_world d op k' (next_attempt d op w))))"
      by simp
    with u fail [OF f lt S] Suc show ?thesis
      by (simp add: attempt_world_Suc)
  qed
qed

lemma attempts_loop_exhausted:
  assumes fail: "\<And>a w. \<not> ok (fst (op w)) \<Longrightarrow> a < n \<Longrightarrow> S \<Longrightarrow>
                 it a w = (Inr None, next_attempt d op w)"
    and last: "\<And>w. \<not> ok (fst (op w)) \<Longrightarrow> it n w = (Inr None, snd (op w))"
  shows "never_succeeds ok d op w (Suc m) \<Longrightarrow> a + int m = n \<Longrightarrow> S \<or> m = 0 \<Longrightarrow>
         attempts_loop it [a..n] w = (Inr False, snd (op (attempt_world d op m w)))"
proof (induction m arbitrary: a w)
  case 0
  then have f: "\<not> ok (fst (op w))" and an: "a = n"
    by (simp_all add: never_succeeds_Suc)
  have "[n..n] = [n]" by simp
  with last [OF f] an show ?case by simp
next
  case (Suc m)
  then have f: "\<not> ok (fst (op w))"
    and rest: "never_succeeds ok d op (next_attempt d op w) (Suc m)"
    and lt: "a < n" and eq: "(a + 1) + int m = n" and S: S
    by (simp_all add: never_succeeds_Suc [of ok d op w "Suc m"])
  from lt have u: "[a..n] = a # [a + 1..n]" by (simp add: upto_rec1)
  from Suc.IH [OF rest eq] S u fail [OF f lt S] show ?case
    by (simp add: attempt_world_Suc)
qed

lemma extends_refl [simp]: "extends Q w w"
  by (simp add: extends_def)

lemma extends_trans: "extends Q w w1 \<Longrightarrow> extends Q w1 w2 \<Longrightarrow> extends Q w w2"
  by (auto simp add: extends_def)

lemma extends_emit: "Q ev \<Longrightarrow> extends Q w (emit ev w)"
  by (simp add: extends_def)

lemma extends_disk [simp]: "extends Q w (w'\<lparr>disk := d\<rparr>) = extends Q w w'"
  by (simp add: extends_def)

lemma extends_mono: "extends Q w w' \<Longrightarrow> (\<And>ev. Q ev \<Longrightarrow> R ev) \<Longrightarrow> extends R w w'"
  by (auto simp add: extends_def list_all_iff)

lemma extends_count:
  "extends Q w w' \<Longrightarrow> (\<And>ev. Q ev \<Longrightarrow> \<not> P ev) \<Longrightarrow> count P w' = count P w"
  by (auto simp add: extends_def count_def list_all_iff filter_empty_conv)

lemma extends_sleep: "Q (EvSleep d) \<Longrightarrow> extends Q w (snd (sleep e d w))"
  by (simp add: sleep_def extends_emit)

lemma extends_on_exception:
  "Q (EvSleep d) \<Longrightarrow> extends Q w (snd (on_exception e a n d w))"
  by (simp add: on_exception_def extends_sleep)

lemma extends_attempts_loop:
  assumes "\<And>a w. extends Q w (snd (it a w))"
  shows "extends Q w (snd (attempts_loop it as w))"
proof (induction as arbitrary: w)
  case Nil
  show ?case by simp
next
  case (Cons a as)
  obtain r w1 where i: "it a w = (r, w1)" by (cases "it a w")
  with assms [of w a] have e: "extends Q w w1" by simp
  show ?case
  proof (cases r)
    case (Inl x)
    with i e show ?thesis by simp
  next
    case (Inr b)
    show ?thesis
    proof (cases b)
      case None
      with Inr i e Cons.IH [of w1] show ?thesis by (auto intro: extends_trans)
    next
      case (Some v)
      with Inr i e show ?thesis by simp
    qed
  qed
qed

lemma extends_image_iteration:
  assumes "\<And>r. Q (EvCopy c r)" "Q (EvSleep d)"
  shows "extends Q w (snd (mirror_image_iteration e c n d a w))"
proof -
  let ?w1 = "emit (EvCopy c (skopeo e (count is_copy w) c)) w"
  have 1: "extends Q w ?w1" using assms(1) by (rule extends_emit)
  have 2: "extends Q ?w1 (snd (sleep e d ?w1))" using assms(2) by (rule extends_sleep)
  have 3: "extends Q ?w1 (snd (on_exception e a n d ?w1))"
    using assms(2) by (rule extends_on_exception)
  have 4: "extends Q (snd (sleep e d ?w1)) (snd (on_exception e a n d (snd (sleep e d ?w1))))"
    using assms(2) by (rule extends_on_exception)
  from 1 2 3 4 show ?thesis
    by (auto simp add: mirror_image_iteration_def skopeo_copy_def Let_def
        split: proc_outcome.splits prod.splits sum.splits intro: extends_trans)
qed

lemma extends_file_iteration:
  assumes "extends Q w (snd (file_operation e reg s p dst tags ts ow u pw mime w))" "Q (EvSleep d)"
  shows "extends Q w (snd (mirror_file_iteration e reg s p dst tags ts ow u pw mime n d a w))"
proof -
  let ?w1 = "snd (file_operation e reg s p dst tags ts ow u pw mime w)"
  have 2: "extends Q ?w1 (snd (sleep e d ?w1))" using assms(2) by (rule extends_sleep)
  have 3: "extends Q ?w1 (snd (on_exception e a n d ?w1))"
    using assms(2) by (rule extends_on_exception)
  have 4: "extends Q (snd (sleep e d ?w1)) (snd (on_exception e a n d (snd (sleep e d ?w1))))"
    using assms(2) by (rule extends_on_exception)
  from assms(1) 2 3 4 show ?thesis
    by (cases "file_operation e reg s p dst tags ts ow u pw mime w")
      (auto simp add: mirror_file_iteration_def
        split: prod.splits sum.splits bool.splits intro: extends_trans)
qed

section \<open>The operation of a file job\<close>

lemma trace_download_file:
  "trace (snd (download_file e s p w)) = trace w @ [EvFetch s p (http_get e (count is_fetch w) s)]"
  by (simp add: download_file_def Let_def split: fetch_outcome.splits sum.splits)

lemma push_file_to_registry_eq:
  "push_file_to_registry e q dst tags ow u pw mime w =
     (oras_push_tool e (count is_push w) (push_cmd q dst tags ow mime) = Exited 0,
      emit (EvPush (push_cmd q dst tags ow mime)
             (oras_push_tool e (count is_push w) (push_cmd q dst tags ow mime))) w)"
  by (simp add: push_file_to_registry_def Let_def)

lemma file_operation_cases:
  "(\<exists>x. fst (file_operation e reg s p dst tags ts ow u pw mime w) = Inl x \<and>
        trace (snd (file_operation e reg s p dst tags ts ow u pw mime w)) =
          trace w @ [EvFetch s p (http_get e (count is_fetch w) s)]) \<or>
   (\<exists>q pr. fst (file_operation e reg s p dst tags ts ow u pw mime w) = Inr (pr = Exited 0) \<and>
        trace (snd (file_operation e reg s p dst tags ts ow u pw mime w)) =
          trace w @ [EvFetch s p (http_get e (count is_fetch w) s),
                     EvPush (push_cmd q dst tags ow mime) pr])"
proof -
  obtain r1 w1 where d: "download_file e s p w = (r1, w1)" by (cases "download_file e s p w")
  with trace_download_file [of e s p w]
  have t1: "trace w1 = trace w @ [EvFetch s p (http_get e (count is_fetch w) s)]" by simp
  show ?thesis
  proof (cases r1)
    case (Inl x)
    with d t1 show ?thesis by (simp add: file_operation_def)
  next
    case (Inr u1)
    obtain r2 d2 where a: "(if ts = [] then (Inr p, disk w1)
        else apply_transforms reg p ts (disk w1)) = (r2, d2)"
      by (cases "if ts = [] then (Inr p, disk w1) else apply_transforms reg p ts (disk w1)")
    show ?thesis
    proof (cases r2)
      case (Inl x)
      with d Inr a t1 show ?thesis by (simp add: file_operation_def)
    next
      case (Inr q)
      with d \<open>r1 = Inr u1\<close> a t1 show ?thesis
        by (auto simp add: file_operation_def push_file_to_registry_eq)
    qed
  qed
qed

lemma count_file_operation:
  "count is_fetch (snd (file_operation e reg s p dst tags ts ow u pw mime w)) =
           count is_fetch w + 1 \<and>
         count is_sleep (snd (file_operation e reg s p dst tags ts ow u pw mime w)) =
     count is_sleep w \<and>
   count (slept_for d) (snd (file_operation e reg s p dst tags ts ow u pw mime w)) =
     count (slept_for d) w"
  using file_operation_cases [of e reg s p dst tags ts ow u pw mime w]
  by (auto simp add: count_def)

lemma count_skopeo_copy:
  "count is_copy (snd (skopeo_copy e c w)) = count is_copy w + 1 \<and>
   count is_sleep (snd (skopeo_copy e c w)) = count is_sleep w \<and>
   count (slept_for d) (snd (skopeo_copy e c w)) = count (slept_for d) w"
  by (simp add: skopeo_copy_def Let_def)

lemma count_attempt_world:
  assumes "\<And>w. count P (snd (op w)) = count P w + c"
  shows "count P (attempt_world d op j w) = count P w + j * (c + (if P (EvSleep d) then 1 else 0))"
proof (induction j arbitrary: w)
  case 0
  show ?case by simp
next
  case (Suc j)
  have "count P (next_attempt d op w) = count P w + (c + (if P (EvSleep d) then 1 else 0))"
    using assms [of w] by (simp add: next_attempt_def)
  with Suc.IH [of "next_attempt d op w"] show ?case
    by (simp add: attempt_world_Suc)
qed

lemma apply_transforms_unregistered:
  "list_ex (unregistered reg) ts \<Longrightarrow> \<exists>x d'. apply_transforms reg p ts d = (Inl x, d')"
proof (induction ts arbitrary: p d)
  case Nil
  then show ?case by simp
next
  case (Cons t ts)
  show ?case
  proof (cases "unregistered reg t")
    case True
    then show ?thesis
      by (auto simp add: unregistered_def split: option.splits)
  next
    case False
    with Cons.prems have rest: "list_ex (unregistered reg) ts" by simp
    from False obtain n f where n: "map_of t ''type'' = Some n" and f: "reg n = Some f"
      by (auto simp add: unregistered_def split: option.splits)
    obtain r d1 where a: "f p d = (r, d1)" by (cases "f p d")
    show ?thesis
    proof (cases r)
      case (Inl x)
      with n f a show ?thesis by simp
    next
      case (Inr q)
      with n f a Cons.IH [OF rest, of q d1] show ?thesis by simp
    qed
  qed
qed

lemma file_operation_unregistered:
  assumes "list_ex (unregistered reg) ts"
  shows "\<exists>x. fst (file_operation e reg s p dst tags ts ow u pw mime w) = Inl x \<and>
        trace (snd (file_operation e reg s p dst tags ts ow u pw mime w)) =
          trace w @ [EvFetch s p (http_get e (count is_fetch w) s)]"
proof -
  from assms have ne: "ts \<noteq> []" by auto
  obtain r1 w1 where d: "download_file e s p w = (r1, w1)" by (cases "download_file e s p w")
  with trace_download_file [of e s p w]
  have t1: "trace w1 = trace w @ [EvFetch s p (http_get e (count is_fetch w) s)]" by simp
  show ?thesis
  proof (cases r1)
    case (Inl x)
    with d t1 show ?thesis by (simp add: file_operation_def)
  next
    case (Inr u1)
    from apply_transforms_unregistered [OF assms, of p "disk w1"]
    obtain x d' where "apply_transforms reg p ts (disk w1) = (Inl x, d')" by blast
    with d Inr ne t1 show ?thesis by (simp add: file_operation_def)
  qed
qed

section \<open>Attempts and sleeps of the retry loops\<close>

lemma image_attempt_outcome:
  "fst (skopeo_copy e c (attempt_world d (skopeo_copy e c) j w)) = skopeo e (count is_copy w + j) c"
  using count_attempt_world [of is_copy "skopeo_copy e c" 1 d j w]
  by (simp add: count_skopeo_copy skopeo_copy_def Let_def)

lemma count_after_attempts:
  assumes "\<And>w. count P (snd (op w)) = count P w + c"
  shows "count P (snd (op (attempt_world d op j w))) =
           count P w + j * (c + (if P (EvSleep d) then 1 else 0)) + c"
  by (simp add: assms count_attempt_world [of P op c d j w, OF assms])

lemma image_loop_counts:
  "count is_copy (snd (skopeo_copy e c (attempt_world d (skopeo_copy e c) j w))) =
     count is_copy w + Suc j \<and>
   count is_sleep (snd (skopeo_copy e c (attempt_world d (skopeo_copy e c) j w))) =
     count is_sleep w + j \<and>
   count (slept_for d) (snd (skopeo_copy e c (attempt_world d (skopeo_copy e c) j w))) =
     count (slept_for d) w + j"
  using count_after_attempts [of is_copy "skopeo_copy e c" 1 d j w]
    count_after_attempts [of is_sleep "skopeo_copy e c" 0 d j w]
    count_after_attempts [of "slept_for d" "skopeo_copy e c" 0 d j w]
  by (simp add: count_skopeo_copy)

lemma mirror_image_first_success:
  assumes "sleepable e dl \<or> k = 1"
    and "first_success_at copy_ok dl (skopeo_copy e (image_cmd s dst tag ow u pw)) w k"
    and "int k \<le> n"
  shows "fst (mirror_image e s dst tag ow u pw n dl w) = Inr True \<and>
         count is_copy (snd (mirror_image e s dst tag ow u pw n dl w)) = count is_copy w + k \<and>
         count is_sleep (snd (mirror_image e s dst tag ow u pw n dl w)) =
           count is_sleep w + (k - 1) \<and>
         count (slept_for dl) (snd (mirror_image e s dst tag ow u pw n dl w)) =
           count (slept_for dl) w + (k - 1)"
proof -
  let ?c = "image_cmd s dst tag ow u pw"
  let ?op = "skopeo_copy e ?c"
  from assms(2) obtain j where k: "k = Suc j" by (cases k) (simp_all add: first_success_at_def)
  have "attempts_loop (mirror_image_iteration e ?c n dl) [1..n] w =
          (Inr True, snd (?op (attempt_world dl ?op (k - 1) w)))"
  proof (rule attempts_loop_success [where ok = copy_ok and S = "sleepable e dl"])
    show "first_success_at copy_ok dl ?op w k" by (rule assms(2))
    show "1 + int k - 1 \<le> n" using assms(3) by simp
    show "sleepable e dl \<or> k = 1" by (rule assms(1))
  qed (simp_all add: mirror_image_iteration_ok mirror_image_iteration_fail copy_ok_def)
  then have m: "mirror_image e s dst tag ow u pw n dl w =
      (Inr True, snd (?op (attempt_world dl ?op j w)))"
    by (simp add: mirror_image_def mirror_image_attempts_loop k)
  show ?thesis unfolding m k snd_conv fst_conv
    using image_loop_counts [of e ?c dl j w] by simp
qed

lemma mirror_image_exhausted:
  assumes "sleepable e dl \<or> n = 1" and "1 \<le> n"
    and "never_succeeds copy_ok dl (skopeo_copy e (image_cmd s dst tag ow u pw)) w (nat n)"
  shows "fst (mirror_image e s dst tag ow u pw n dl w) = Inr False \<and>
         count is_copy (snd (mirror_image e s dst tag ow u pw n dl w)) = count is_copy w + nat n \<and>
         count is_sleep (snd (mirror_image e s dst tag ow u pw n dl w)) =
           count is_sleep w + (nat n - 1) \<and>
         count (slept_for dl) (snd (mirror_image e s dst tag ow u pw n dl w)) =
           count (slept_for dl) w + (nat n - 1)"
proof -
  let ?c = "image_cmd s dst tag ow u pw"
  let ?op = "skopeo_copy e ?c"
  from assms(2) obtain j where n: "nat n = Suc j" by (cases "nat n") simp_all
  have "attempts_loop (mirror_image_iteration e ?c n dl) [1..n] w =
          (Inr False, snd (?op (attempt_world dl ?op j w)))"
  proof (rule attempts_loop_exhausted [where ok = copy_ok and S = "sleepable e dl"])
    show "never_succeeds copy_ok dl ?op w (Suc j)"
      using assms(3) n by simp
    show "1 + int j = n" using assms(2) n by simp
    show "sleepable e dl \<or> j = 0" using assms(1) n by auto
  qed (simp_all add: mirror_image_iteration_fail copy_ok_def)
  then have m: "mirror_image e s dst tag ow u pw n dl w =
      (Inr False, snd (?op (attempt_world dl ?op j w)))"
    by (simp add: mirror_image_def mirror_image_attempts_loop)
  show ?thesis unfolding m n snd_conv fst_conv
    using image_loop_counts [of e ?c dl j w] by simp
qed

lemma count_make_tmpdir:
  "count P (snd (make_tmpdir e w)) =
     count P w + (if P (EvMkTmp (mkdtemp e (count is_mktmp w))) then 1 else 0)"
  by (simp add: make_tmpdir_def Let_def)

lemma count_cleanup:
  "count P (cleanup t w) = count P w + (if P (EvRmTmp t) then 1 else 0)"
  by (simp add: cleanup_def)

lemma mirror_file_unfold:
  "mirror_file e reg s dst tags ts ow u pw mime n dl w =
     (fst (attempts_loop
        (mirror_file_iteration e reg s
           (path_join (fst (make_tmpdir e w)) (last (split_on CHR ''/'' s)))
           dst tags ts ow u pw mime n dl) [1..n] (snd (make_tmpdir e w))),
      cleanup (fst (make_tmpdir e w))
        (snd (attempts_loop
        (mirror_file_iteration e reg s
           (path_join (fst (make_tmpdir e w)) (last (split_on CHR ''/'' s)))
           dst tags ts ow u pw mime n dl) [1..n] (snd (make_tmpdir e w)))))"
  by (simp add: mirror_file_def mirror_file_attempts_loop Let_def split: prod.splits)

lemma file_loop_counts:
  "count is_fetch (snd (file_operation e reg s p dst tags ts ow u pw mime
       (attempt_world d (file_operation e reg s p dst tags ts ow u pw mime) j w))) =
     count is_fetch w + Suc j \<and>
   count is_sleep (snd (file_operation e reg s p dst tags ts ow u pw mime
       (attempt_world d (file_operation e reg s p dst tags ts ow u pw mime) j w))) =
     count is_sleep w + j \<and>
   count (slept_for d) (snd (file_operation e reg s p dst tags ts ow u pw mime
       (attempt_world d (file_operation e reg s p dst tags ts ow u pw mime) j w))) =
     count (slept_for d) w + j"
proof -
  let ?op = "file_operation e reg s p dst tags ts ow u pw mime"
  have 1: "count is_fetch (snd (?op w')) = count is_fetch w' + 1" for w'
    using count_file_operation [of e reg s p dst tags ts ow u pw mime w'] by simp
  have 2: "count is_sleep (snd (?op w')) = count is_sleep w' + 0" for w'
    using count_file_operation [of e reg s p dst tags ts ow u pw mime w'] by simp
  have 3: "count (slept_for d) (snd (?op w')) = count (slept_for d) w' + 0" for w'
    using count_file_operation [of e reg s p dst tags ts ow u pw mime w' d] by simp
  from count_after_attempts [of is_fetch ?op 1 d j w, OF 1]
    count_after_attempts [of is_sleep ?op 0 d j w, OF 2]
    count_after_attempts [of "slept_for d" ?op 0 d j w, OF 3]
  show ?thesis by simp
qed

lemma mirror_file_counts:
  assumes "attempts_loop
        (mirror_file_iteration e reg s
           (path_join (fst (make_tmpdir e w)) (last (split_on CHR ''/'' s)))
           dst tags ts ow u pw mime n dl) [1..n] (snd (make_tmpdir e w)) = (r, w1)"
  shows "fst (mirror_file e reg s dst tags ts ow u pw mime n dl w) = r \<and>
         count is_fetch (snd (mirror_file e reg s dst tags ts ow u pw mime n dl w)) =
           count is_fetch w1 \<and>
         count is_sleep (snd (mirror_file e reg s dst tags ts ow u pw mime n dl w)) =
           count is_sleep w1 \<and>
         count (slept_for dl) (snd (mirror_file e reg s dst tags ts ow u pw mime n dl w)) =
           count (slept_for dl) w1"
  by (simp add: mirror_file_unfold assms count_cleanup)

lemma count_tmpdir_start:
  "count is_fetch (snd (make_tmpdir e w)) = count is_fetch w \<and>
   count is_sleep (snd (make_tmpdir e w)) = count is_sleep w \<and>
   count (slept_for d) (snd (make_tmpdir e w)) = count (slept_for d) w"
  by (simp add: count_make_tmpdir)

lemma mirror_file_first_success:
  assumes "sleepable e dl \<or> k = 1"
    and "first_success_at file_ok dl
           (file_operation e reg s
              (path_join (fst (make_tmpdir e w)) (last (split_on CHR ''/'' s)))
              dst tags ts ow u pw mime)
           (snd (make_tmpdir e w)) k"
    and "int k \<le> n"
  shows "fst (mirror_file e reg s dst tags ts ow u pw mime n dl w) = Inr True \<and>
         count is_fetch (snd (mirror_file e reg s dst tags ts ow u pw mime n dl w)) =
           count is_fetch w + k \<and>
         count is_sleep (snd (mirror_file e reg s dst tags ts ow u pw mime n dl w)) =
           count is_sleep w + (k - 1) \<and>
         count (slept_for dl) (snd (mirror_file e reg s dst tags ts ow u pw mime n dl w)) =
           count (slept_for dl) w + (k - 1)"
proof -
  let ?p = "path_join (fst (make_tmpdir e w)) (last (split_on CHR ''/'' s))"
  let ?op = "file_operation e reg s ?p dst tags ts ow u pw mime"
  let ?w0 = "snd (make_tmpdir e w)"
  from assms(2) obtain j where k: "k = Suc j" by (cases k) (simp_all add: first_success_at_def)
  have "attempts_loop (mirror_file_iteration e reg s ?p dst tags ts ow u pw mime n dl) [1..n] ?w0 =
          (Inr True, snd (?op (attempt_world dl ?op (k - 1) ?w0)))"
  proof (rule attempts_loop_success [where ok = file_ok and S = "sleepable e dl"])
    show "first_success_at file_ok dl ?op ?w0 k" by (rule assms(2))
    show "1 + int k - 1 \<le> n" using assms(3) by simp
    show "sleepable e dl \<or> k = 1" by (rule assms(1))
  qed (simp_all add: mirror_file_iteration_ok mirror_file_iteration_fail file_ok_def)
  then have l: "attempts_loop (mirror_file_iteration e reg s ?p dst tags ts ow u pw mime n dl)
      [1..n] ?w0 = (Inr True, snd (?op (attempt_world dl ?op j ?w0)))"
    by (simp only: k diff_Suc_1)
  define w1 where "w1 = snd (?op (attempt_world dl ?op j ?w0))"
  have c: "count is_fetch w1 = count is_fetch w + Suc j"
    "count is_sleep w1 = count is_sleep w + j"
    "count (slept_for dl) w1 = count (slept_for dl) w + j"
    unfolding w1_def
    using file_loop_counts [of e reg s ?p dst tags ts ow u pw mime dl j ?w0]
      count_tmpdir_start [of e w dl]
    by simp_all
  from mirror_file_counts [OF l [folded w1_def]] c show ?thesis
    by (simp only: k diff_Suc_1)
qed

lemma mirror_file_exhausted:
  assumes "sleepable e dl \<or> n = 1" and "1 \<le> n"
    and "never_succeeds file_ok dl
           (file_operation e reg s
              (path_join (fst (make_tmpdir e w)) (last (split_on CHR ''/'' s)))
              dst tags ts ow u pw mime)
           (snd (make_tmpdir e w)) (nat n)"
  shows "fst (mirror_file e reg s dst tags ts ow u pw mime n dl w) = Inr False \<and>
         count is_fetch (snd (mirror_file e reg s dst tags ts ow u pw mime n dl w)) =
           count is_fetch w + nat n \<and>
         count is_sleep (snd (mirror_file e reg s dst tags ts ow u pw mime n dl w)) =
           count is_sleep w + (nat n - 1) \<and>
         count (slept_for dl) (snd (mirror_file e reg s dst tags ts ow u pw mime n dl w)) =
           count (slept_for dl) w + (nat n - 1)"
proof -
  let ?p = "path_join (fst (make_tmpdir e w)) (last (split_on CHR ''/'' s))"
  let ?op = "file_operation e reg s ?p dst tags ts ow u pw mime"
  let ?w0 = "snd (make_tmpdir e w)"
  from assms(2) obtain j where n: "nat n = Suc j" by (cases "nat n") simp_all
  have l: "attempts_loop (mirror_file_iteration e reg s ?p dst tags ts ow u pw mime n dl) [1..n] ?w0 =
          (Inr False, snd (?op (attempt_world dl ?op j ?w0)))"
  proof (rule attempts_loop_exhausted [where ok = file_ok and S = "sleepable e dl"])
    show "never_succeeds file_ok dl ?op ?w0 (Suc j)"
      using assms(3) n by simp
    show "1 + int j = n" using assms(2) n by simp
    show "sleepable e dl \<or> j = 0" using assms(1) n by auto
  qed (simp_all add: mirror_file_iteration_fail file_ok_def)
  define w1 where "w1 = snd (?op (attempt_world dl ?op j ?w0))"
  have c: "count is_fetch w1 = count is_fetch w + Suc j"
    "count is_sleep w1 = count is_sleep w + j"
    "count (slept_for dl) w1 = count (slept_for dl) w + j"
    unfolding w1_def
    using file_loop_counts [of e reg s ?p dst tags ts ow u pw mime dl j ?w0]
      count_tmpdir_start [of e w dl]
    by simp_all
  from mirror_file_counts [OF l [folded w1_def]] c show ?thesis
    by (simp only: n diff_Suc_1)
qed

text \<open>
  C2 (as amended). Let \<^verbatim>\<open>retry_attempts\<close> be at least 1, and let the delay be one
  that \<^verbatim>\<open>time.sleep\<close> accepts (\<open>sleepable\<close>: at least 0, at most 9223372036 seconds,
  and not refused by the platform), or let no sleep be due (success at the first
  attempt; a single attempt). If the operation (the copy for an
  image tag; download, transforms and push for a file job) succeeds for the first time
  at attempt \<open>k \<le> retry_attempts\<close>, the loop returns \<^verbatim>\<open>True\<close> after exactly
  \<open>k\<close> runs of the operation and \<open>k - 1\<close> sleeps, each of the configured delay. If
  all \<^verbatim>\<open>retry_attempts\<close> attempts fail, it returns \<^verbatim>\<open>False\<close> after exactly
  \<^verbatim>\<open>retry_attempts\<close> runs (and one sleep fewer). Runs are counted by the copy events
  of \<^verbatim>\<open>mirror_image\<close> and by the download events of \<^verbatim>\<open>mirror_file\<close>: every run
  of the file operation starts with one download. Attempt \<open>j + 1\<close> runs in the world
  that \<open>j\<close> failed attempts, each followed by a sleep, have left
  (\<open>attempt_world\<close>); for an image tag its outcome is the answer of the copy tool to
  its invocation number \<open>j\<close> after those before the call (lemma
  \<open>image_attempt_outcome\<close>).
\<close>

theorem retry_loop_attempts:
  assumes "1 \<le> n"
  shows
    "(first_success_at copy_ok dl
         (skopeo_copy e (image_cmd s dst tag ow u pw)) w k \<and> int k \<le> n \<and>
         (sleepable e dl \<or> k = 1) \<longrightarrow>
        fst (mirror_image e s dst tag ow u pw n dl w) = Inr True \<and>
        count is_copy (snd (mirror_image e s dst tag ow u pw n dl w)) = count is_copy w + k \<and>
        count is_sleep (snd (mirror_image e s dst tag ow u pw n dl w)) =
          count is_sleep w + (k - 1) \<and>
        count (slept_for dl) (snd (mirror_image e s dst tag ow u pw n dl w)) =
          count (slept_for dl) w + (k - 1)) \<and>
     (never_succeeds copy_ok dl
         (skopeo_copy e (image_cmd s dst tag ow u pw)) w (nat n) \<and>
         (sleepable e dl \<or> n = 1) \<longrightarrow>
        fst (mirror_image e s dst tag ow u pw n dl w) = Inr False \<and>
        count is_copy (snd (mirror_image e s dst tag ow u pw n dl w)) = count is_copy w + nat n \<and>
        count is_sleep (snd (mirror_image e s dst tag ow u pw n dl w)) =
          count is_sleep w + (nat n - 1) \<and>
        count (slept_for dl) (snd (mirror_image e s dst tag ow u pw n dl w)) =
          count (slept_for dl) w + (nat n - 1)) \<and>
     (first_success_at file_ok dl
         (file_operation e reg s
            (path_join (fst (make_tmpdir e w)) (last (split_on CHR ''/'' s)))
            dst tags ts ow u pw mime)
         (snd (make_tmpdir e w)) k \<and> int k \<le> n \<and>
         (sleepable e dl \<or> k = 1) \<longrightarrow>
        fst (mirror_file e reg s dst tags ts ow u pw mime n dl w) = Inr True \<and>
        count is_fetch (snd (mirror_file e reg s dst tags ts ow u pw mime n dl w)) =
          count is_fetch w + k \<and>
        count is_sleep (snd (mirror_file e reg s dst tags ts ow u pw mime n dl w)) =
          count is_sleep w + (k - 1) \<and>
        count (slept_for dl) (snd (mirror_file e reg s dst tags ts ow u pw mime n dl w)) =
          count (slept_for dl) w + (k - 1)) \<and>
     (never_succeeds file_ok dl
         (file_operation e reg s
            (path_join (fst (make_tmpdir e w)) (last (split_on CHR ''/'' s)))
            dst tags ts ow u pw mime)
         (snd (make_tmpdir e w)) (nat n) \<and>
         (sleepable e dl \<or> n = 1) \<longrightarrow>
        fst (mirror_file e reg s dst tags ts ow u pw mime n dl w) = Inr False \<and>
        count is_fetch (snd (mirror_file e reg s dst tags ts ow u pw mime n dl w)) =
          count is_fetch w + nat n \<and>
        count is_sleep (snd (mirror_file e reg s dst tags ts ow u pw mime n dl w)) =
          count is_sleep w + (nat n - 1) \<and>
        count (slept_for dl) (snd (mirror_file e reg s dst tags ts ow u pw mime n dl w)) =
          count (slept_for dl) w + (nat n - 1))"
proof (intro conjI)
  show "first_success_at copy_ok dl
         (skopeo_copy e (image_cmd s dst tag ow u pw)) w k \<and> int k \<le> n \<and>
         (sleepable e dl \<or> k = 1) \<longrightarrow>
        fst (mirror_image e s dst tag ow u pw n dl w) = Inr True \<and>
        count is_copy (snd (mirror_image e s dst tag ow u pw n dl w)) = count is_copy w + k \<and>
        count is_sleep (snd (mirror_image e s dst tag ow u pw n dl w)) =
          count is_sleep w + (k - 1) \<and>
        count (slept_for dl) (snd (mirror_image e s dst tag ow u pw n dl w)) =
          count (slept_for dl) w + (k - 1)"
    by (intro impI, elim conjE) (rule mirror_image_first_success; assumption)
  show "never_succeeds copy_ok dl
         (skopeo_copy e (image_cmd s dst tag ow u pw)) w (nat n) \<and>
         (sleepable e dl \<or> n = 1) \<longrightarrow>
        fst (mirror_image e s dst tag ow u pw n dl w) = Inr False \<and>
        count is_copy (snd (mirror_image e s dst tag ow u pw n dl w)) = count is_copy w + nat n \<and>
        count is_sleep (snd (mirror_image e s dst tag ow u pw n dl w)) =
          count is_sleep w + (nat n - 1) \<and>
        count (slept_for dl) (snd (mirror_image e s dst tag ow u pw n dl w)) =
          count (slept_for dl) w + (nat n - 1)"
    by (intro impI, elim conjE) (rule mirror_image_exhausted [OF _ assms]; assumption)
  show "first_success_at file_ok dl
         (file_operation e reg s
            (path_join (fst (make_tmpdir e w)) (last (split_on CHR ''/'' s)))
            dst tags ts ow u pw mime)
         (snd (make_tmpdir e w)) k \<and> int k \<le> n \<and>
         (sleepable e dl \<or> k = 1) \<longrightarrow>
        fst (mirror_file e reg s dst tags ts ow u pw mime n dl w) = Inr True \<and>
        count is_fetch (snd (mirror_file e reg s dst tags ts ow u pw mime n dl w)) =
          count is_fetch w + k \<and>
        count is_sleep (snd (mirror_file e reg s dst tags ts ow u pw mime n dl w)) =
          count is_sleep w + (k - 1) \<and>
        count (slept_for dl) (snd (mirror_file e reg s dst tags ts ow u pw mime n dl w)) =
          count (slept_for dl) w + (k - 1)"
    by (intro impI, elim conjE) (rule mirror_file_first_success; assumption)
  show "never_succeeds file_ok dl
         (file_operation e reg s
            (path_join (fst (make_tmpdir e w)) (last (split_on CHR ''/'' s)))
            dst tags ts ow u pw mime)
         (snd (make_tmpdir e w)) (nat n) \<and>
         (sleepable e dl \<or> n = 1) \<longrightarrow>
        fst (mirror_file e reg s dst tags ts ow u pw mime n dl w) = Inr False \<and>
        count is_fetch (snd (mirror_file e reg s dst tags ts ow u pw mime n dl w)) =
          count is_fetch w + nat n \<and>
        count is_sleep (snd (mirror_file e reg s dst tags ts ow u pw mime n dl w)) =
          count is_sleep w + (nat n - 1) \<and>
        count (slept_for dl) (snd (mirror_file e reg s dst tags ts ow u pw mime n dl w)) =
          count (slept_for dl) w + (nat n - 1)"
    by (intro impI, elim conjE) (rule mirror_file_exhausted [OF _ assms]; assumption)
qed

text \<open>
  The statement of the specification, for every delay of a retry policy (0 seconds or
  more), fails: \<^verbatim>\<open>time.sleep\<close> refuses a delay of 10000000000 seconds with
  \<^verbatim>\<open>OverflowError\<close>, in the \<^verbatim>\<open>try\<close> block and again in the \<^verbatim>\<open>except\<close> clause. With
  two attempts and a copy tool that always exits with status 1, \<^verbatim>\<open>mirror_image\<close>
  runs the tool once and ends with that exception instead of returning \<^verbatim>\<open>False\<close>
  after two runs.
\<close>

theorem retry_loop_long_delay_counterexample:
  "never_succeeds copy_ok 10000000000
     (skopeo_copy failing_copy_env (image_cmd ''docker.io/nginx'' ''ghcr.io/{{GITHUB_REPOSITORY_OWNER}}/nginx''
        ''v1'' ''acme'' ''bot'' ''tok'')) demo_world (nat 2) \<and>
   fst (mirror_image failing_copy_env ''docker.io/nginx'' ''ghcr.io/{{GITHUB_REPOSITORY_OWNER}}/nginx''
        ''v1'' ''acme'' ''bot'' ''tok'' 2 10000000000 demo_world) = Inl OverflowError \<and>
   count is_copy (snd (mirror_image failing_copy_env ''docker.io/nginx'' ''ghcr.io/{{GITHUB_REPOSITORY_OWNER}}/nginx''
        ''v1'' ''acme'' ''bot'' ''tok'' 2 10000000000 demo_world)) = 1"
  by code_simp

theorem retry_loop_attempts_witness:
  "sleepable demo_env 1 \<and>
   first_success_at copy_ok 1
     (skopeo_copy demo_env (image_cmd ''docker.io/nginx'' ''ghcr.io/{{GITHUB_REPOSITORY_OWNER}}/nginx''
        ''v1'' ''acme'' ''bot'' ''tok'')) demo_world 2 \<and>
   fst (mirror_image demo_env ''docker.io/nginx'' ''ghcr.io/{{GITHUB_REPOSITORY_OWNER}}/nginx''
        ''v1'' ''acme'' ''bot'' ''tok'' 3 1 demo_world) = Inr True \<and>
   count is_copy (snd (mirror_image demo_env ''docker.io/nginx'' ''ghcr.io/{{GITHUB_REPOSITORY_OWNER}}/nginx''
        ''v1'' ''acme'' ''bot'' ''tok'' 3 1 demo_world)) = 2 \<and>
   count is_sleep (snd (mirror_image demo_env ''docker.io/nginx'' ''ghcr.io/{{GITHUB_REPOSITORY_OWNER}}/nginx''
        ''v1'' ''acme'' ''bot'' ''tok'' 3 1 demo_world)) = 1 \<and>
   never_succeeds copy_ok 1
     (skopeo_copy failing_copy_env (image_cmd ''docker.io/nginx'' ''ghcr.io/{{GITHUB_REPOSITORY_OWNER}}/nginx''
        ''v1'' ''acme'' ''bot'' ''tok'')) demo_world 2 \<and>
   fst (mirror_image failing_copy_env ''docker.io/nginx'' ''ghcr.io/{{GITHUB_REPOSITORY_OWNER}}/nginx''
        ''v1'' ''acme'' ''bot'' ''tok'' 2 1 demo_world) = Inr False \<and>
   count is_copy (snd (mirror_image failing_copy_env ''docker.io/nginx'' ''ghcr.io/{{GITHUB_REPOSITORY_OWNER}}/nginx''
        ''v1'' ''acme'' ''bot'' ''tok'' 2 1 demo_world)) = 2 \<and>
   fst (mirror_file (demo_env\<lparr>oras_push_tool := \<lambda>n c. if n = 0 then Exited 1 else Exited 0\<rparr>)
        (TRANSFORMERS demo_env) ''https://example.com/a/data.gz''
        ''ghcr.io/{{GITHUB_REPOSITORY_OWNER}}/data'' [''latest''] [[(''type'', ''gunzip'')]]
        ''acme'' ''bot'' ''tok'' None 3 1 demo_world) = Inr True \<and>
   count is_fetch (snd (mirror_file (demo_env\<lparr>oras_push_tool := \<lambda>n c. if n = 0 then Exited 1 else Exited 0\<rparr>)
        (TRANSFORMERS demo_env) ''https://example.com/a/data.gz''
        ''ghcr.io/{{GITHUB_REPOSITORY_OWNER}}/data'' [''latest''] [[(''type'', ''gunzip'')]]
        ''acme'' ''bot'' ''tok'' None 3 1 demo_world)) = 2 \<and>
   count is_sleep (snd (mirror_file (demo_env\<lparr>oras_push_tool := \<lambda>n c. if n = 0 then Exited 1 else Exited 0\<rparr>)
        (TRANSFORMERS demo_env) ''https://example.com/a/data.gz''
        ''ghcr.io/{{GITHUB_REPOSITORY_OWNER}}/data'' [''latest''] [[(''type'', ''gunzip'')]]
        ''acme'' ''bot'' ''tok'' None 3 1 demo_world)) = 1 \<and>
   fst (mirror_file (demo_env\<lparr>http_get := \<lambda>n url. FetchRaises\<rparr>)
        (TRANSFORMERS demo_env) ''https://example.com/a/data.gz''
        ''ghcr.io/{{GITHUB_REPOSITORY_OWNER}}/data'' [''latest''] [[(''type'', ''gunzip'')]]
        ''acme'' ''bot'' ''tok'' None 2 1 demo_world) = Inr False \<and>
   count is_fetch (snd (mirror_file (demo_env\<lparr>http_get := \<lambda>n url. FetchRaises\<rparr>)
        (TRANSFORMERS demo_env) ''https://example.com/a/data.gz''
        ''ghcr.io/{{GITHUB_REPOSITORY_OWNER}}/data'' [''latest''] [[(''type'', ''gunzip'')]]
        ''acme'' ''bot'' ''tok'' None 2 1 demo_world)) = 2 \<and>
   fst (mirror_image demo_env ''docker.io/nginx'' ''ghcr.io/{{GITHUB_REPOSITORY_OWNER}}/nginx''
        ''v1'' ''acme'' ''bot'' ''tok'' 1 10000000000
        (snd (skopeo_copy demo_env (image_cmd ''docker.io/nginx'' ''ghcr.io/{{GITHUB_REPOSITORY_OWNER}}/nginx''
        ''v1'' ''acme'' ''bot'' ''tok'') demo_world))) = Inr True"
proof -
  let ?c = "image_cmd ''docker.io/nginx'' ''ghcr.io/{{GITHUB_REPOSITORY_OWNER}}/nginx''
        ''v1'' ''acme'' ''bot'' ''tok''"
  let ?e2 = "failing_copy_env"
  let ?e3 = "demo_env\<lparr>oras_push_tool := \<lambda>n c. if n = 0 then Exited 1 else Exited 0\<rparr>"
  let ?e4 = "demo_env\<lparr>http_get := \<lambda>n url. FetchRaises\<rparr>"
  let ?s = "''https://example.com/a/data.gz''"
  let ?dst = "''ghcr.io/{{GITHUB_REPOSITORY_OWNER}}/data''"
  let ?w1 = "snd (skopeo_copy demo_env ?c demo_world)"
  have c0: "count is_copy demo_world = 0" "count is_sleep demo_world = 0"
    "count is_fetch demo_world = 0"
    by (simp_all add: count_def demo_world_def)
  have sl: "sleepable demo_env 1" "sleepable ?e2 1" "sleepable ?e3 1" "sleepable ?e4 1"
    by (simp_all add: sleepable_def demo_env_def failing_copy_env_def)
  have h1: "first_success_at copy_ok 1 (skopeo_copy demo_env ?c) demo_world 2"
    by code_simp
  have h2: "never_succeeds copy_ok 1 (skopeo_copy ?e2 ?c) demo_world 2"
    by code_simp
  have h3: "first_success_at file_ok 1
         (file_operation ?e3 (TRANSFORMERS demo_env) ?s
            (path_join (fst (make_tmpdir ?e3 demo_world)) (last (split_on CHR ''/'' ?s)))
            ?dst [''latest''] [[(''type'', ''gunzip'')]] ''acme'' ''bot'' ''tok'' None)
         (snd (make_tmpdir ?e3 demo_world)) 2"
    by code_simp
  have h4: "never_succeeds file_ok 1
         (file_operation ?e4 (TRANSFORMERS demo_env) ?s
            (path_join (fst (make_tmpdir ?e4 demo_world)) (last (split_on CHR ''/'' ?s)))
            ?dst [''latest''] [[(''type'', ''gunzip'')]] ''acme'' ''bot'' ''tok'' None)
         (snd (make_tmpdir ?e4 demo_world)) 2"
    by code_simp
  have h5: "first_success_at copy_ok 10000000000 (skopeo_copy demo_env ?c) ?w1 1"
    by code_simp
  have n3: "(1::int) \<le> 3" "(1::int) \<le> 2" "int 2 \<le> 3" "(1::int) \<le> 1" "int 1 \<le> 1"
    by simp_all
  note t1 = retry_loop_attempts [OF n3(1), where e = demo_env and s = "''docker.io/nginx''"
      and dst = "''ghcr.io/{{GITHUB_REPOSITORY_OWNER}}/nginx''" and tag = "''v1''" and ow = "''acme''"
      and u = "''bot''" and pw = "''tok''" and w = demo_world and k = 2 and dl = 1]
  note t2 = retry_loop_attempts [OF n3(2), where e = ?e2 and s = "''docker.io/nginx''"
      and dst = "''ghcr.io/{{GITHUB_REPOSITORY_OWNER}}/nginx''" and tag = "''v1''" and ow = "''acme''"
      and u = "''bot''" and pw = "''tok''" and w = demo_world and dl = 1]
  note t3 = retry_loop_attempts [OF n3(1), where e = ?e3 and reg = "TRANSFORMERS demo_env"
      and s = ?s and dst = ?dst and tags = "[''latest'']" and ts = "[[(''type'', ''gunzip'')]]"
      and ow = "''acme''" and u = "''bot''" and pw = "''tok''" and mime = None
      and w = demo_world and k = 2 and dl = 1]
  note t4 = retry_loop_attempts [OF n3(2), where e = ?e4 and reg = "TRANSFORMERS demo_env"
      and s = ?s and dst = ?dst and tags = "[''latest'']" and ts = "[[(''type'', ''gunzip'')]]"
      and ow = "''acme''" and u = "''bot''" and pw = "''tok''" and mime = None
      and w = demo_world and dl = 1]
  note t5 = retry_loop_attempts [OF n3(4), where e = demo_env and s = "''docker.io/nginx''"
      and dst = "''ghcr.io/{{GITHUB_REPOSITORY_OWNER}}/nginx''" and tag = "''v1''" and ow = "''acme''"
      and u = "''bot''" and pw = "''tok''" and w = ?w1 and k = 1 and dl = 10000000000]
  from t1 h1 n3 c0 sl have r1: "fst (mirror_image demo_env ''docker.io/nginx'' ''ghcr.io/{{GITHUB_REPOSITORY_OWNER}}/nginx''
        ''v1'' ''acme'' ''bot'' ''tok'' 3 1 demo_world) = Inr True \<and>
   count is_copy (snd (mirror_image demo_env ''docker.io/nginx'' ''ghcr.io/{{GITHUB_REPOSITORY_OWNER}}/nginx''
        ''v1'' ''acme'' ''bot'' ''tok'' 3 1 demo_world)) = 2 \<and>
   count is_sleep (snd (mirror_image demo_env ''docker.io/nginx'' ''ghcr.io/{{GITHUB_REPOSITORY_OWNER}}/nginx''
        ''v1'' ''acme'' ''bot'' ''tok'' 3 1 demo_world)) = 1"
    by simp
  from t2 h2 c0 sl have r2: "fst (mirror_image ?e2 ''docker.io/nginx'' ''ghcr.io/{{GITHUB_REPOSITORY_OWNER}}/nginx''
        ''v1'' ''acme'' ''bot'' ''tok'' 2 1 demo_world) = Inr False \<and>
   count is_copy (snd (mirror_image ?e2 ''docker.io/nginx'' ''ghcr.io/{{GITHUB_REPOSITORY_OWNER}}/nginx''
        ''v1'' ''acme'' ''bot'' ''tok'' 2 1 demo_world)) = 2"
    by simp
  from t3 h3 n3 c0 sl have r3: "fst (mirror_file ?e3 (TRANSFORMERS demo_env) ?s ?dst [''latest'']
        [[(''type'', ''gunzip'')]] ''acme'' ''bot'' ''tok'' None 3 1 demo_world) = Inr True \<and>
   count is_fetch (snd (mirror_file ?e3 (TRANSFORMERS demo_env) ?s ?dst [''latest'']
        [[(''type'', ''gunzip'')]] ''acme'' ''bot'' ''tok'' None 3 1 demo_world)) = 2 \<and>
   count is_sleep (snd (mirror_file ?e3 (TRANSFORMERS demo_env) ?s ?dst [''latest'']
        [[(''type'', ''gunzip'')]] ''acme'' ''bot'' ''tok'' None 3 1 demo_world)) = 1"
    by simp
  from t4 h4 c0 sl have r4: "fst (mirror_file ?e4 (TRANSFORMERS demo_env) ?s ?dst [''latest'']
        [[(''type'', ''gunzip'')]] ''acme'' ''bot'' ''tok'' None 2 1 demo_world) = Inr False \<and>
   count is_fetch (snd (mirror_file ?e4 (TRANSFORMERS demo_env) ?s ?dst [''latest'']
        [[(''type'', ''gunzip'')]] ''acme'' ''bot'' ''tok'' None 2 1 demo_world)) = 2"
    by simp
  from t5 h5 n3 have r5: "fst (mirror_image demo_env ''docker.io/nginx'' ''ghcr.io/{{GITHUB_REPOSITORY_OWNER}}/nginx''
        ''v1'' ''acme'' ''bot'' ''tok'' 1 10000000000 ?w1) = Inr True"
    by simp
  from sl h1 h2 r1 r2 r3 r4 r5 show ?thesis by simp
qed

section \<open>Unknown transform types\<close>

lemma attempts_loop_never_True:
  assumes "\<And>a w. fst (it a w) \<noteq> Inr (Some True)"
  shows "fst (attempts_loop it as w) \<noteq> Inr True"
proof (induction as arbitrary: w)
  case Nil
  show ?case by simp
next
  case (Cons a as)
  obtain r w1 where i: "it a w = (r, w1)" by (cases "it a w")
  with assms [of a w] have "r \<noteq> Inr (Some True)" by simp
  with i Cons.IH [of w1] show ?case
    by (auto split: sum.splits option.splits)
qed

lemma mirror_file_iteration_never_True:
  assumes "fst (file_operation e reg s p dst tags ts ow u pw mime w) \<noteq> Inr True"
  shows "fst (mirror_file_iteration e reg s p dst tags ts ow u pw mime n d a w) \<noteq> Inr (Some True)"
  using assms
  by (cases "file_operation e reg s p dst tags ts ow u pw mime w")
    (auto simp add: mirror_file_iteration_def split: sum.splits bool.splits prod.splits)

lemma never_succeeds_always:
  assumes "\<And>w. \<not> ok (fst (op w))"
  shows "never_succeeds ok d op w m"
  using assms by (simp add: never_succeeds_def list_all_iff)

text \<open>
  C1 (as amended). When the list of transforms of a file job holds a step whose type
  is not in the registry, \<^verbatim>\<open>mirror_file\<close> never returns \<^verbatim>\<open>True\<close> and never
  calls the push tool. The download is not spared: every attempt fetches the source
  before \<^verbatim>\<open>apply_transforms\<close> looks the types up, so with a delay that
  \<^verbatim>\<open>time.sleep\<close> accepts (\<open>sleepable\<close>: at least 0, at most 9223372036 seconds, and
  not refused by the platform), or with at most one attempt (no sleep is due), the job
  returns \<^verbatim>\<open>False\<close> after exactly \<^verbatim>\<open>retry_attempts\<close> downloads.
\<close>

theorem unknown_transform_fails_after_fetch:
  assumes "list_ex (unregistered reg) ts"
  shows "fst (mirror_file e reg s dst tags ts ow u pw mime n dl w) \<noteq> Inr True \<and>
         count is_push (snd (mirror_file e reg s dst tags ts ow u pw mime n dl w)) =
           count is_push w \<and>
         (sleepable e dl \<or> n \<le> 1 \<longrightarrow>
            fst (mirror_file e reg s dst tags ts ow u pw mime n dl w) = Inr False \<and>
            count is_fetch (snd (mirror_file e reg s dst tags ts ow u pw mime n dl w)) =
              count is_fetch w + nat n)"
proof -
  let ?p = "path_join (fst (make_tmpdir e w)) (last (split_on CHR ''/'' s))"
  let ?op = "file_operation e reg s ?p dst tags ts ow u pw mime"
  let ?it = "mirror_file_iteration e reg s ?p dst tags ts ow u pw mime n dl"
  let ?w0 = "snd (make_tmpdir e w)"
  have nt: "fst (?op w') \<noteq> Inr True" for w'
    using file_operation_unregistered [OF assms, of e s ?p dst tags ow u pw mime w'] by auto
  have "fst (attempts_loop ?it [1..n] ?w0) \<noteq> Inr True"
    by (rule attempts_loop_never_True) (rule mirror_file_iteration_never_True, rule nt)
  then have 1: "fst (mirror_file e reg s dst tags ts ow u pw mime n dl w) \<noteq> Inr True"
    by (simp add: mirror_file_unfold)
  have ex: "extends (\<lambda>ev. \<not> is_push ev) w' (snd (?op w'))" for w'
    using file_operation_unregistered [OF assms, of e s ?p dst tags ow u pw mime w']
    by (auto simp add: extends_def)
  have "extends (\<lambda>ev. \<not> is_push ev) ?w0 (snd (attempts_loop ?it [1..n] ?w0))"
    by (rule extends_attempts_loop) (rule extends_file_iteration, rule ex, simp)
  then have "count is_push (snd (attempts_loop ?it [1..n] ?w0)) = count is_push ?w0"
    by (rule extends_count) simp
  then have 2: "count is_push (snd (mirror_file e reg s dst tags ts ow u pw mime n dl w)) =
      count is_push w"
    by (simp add: mirror_file_unfold count_cleanup count_make_tmpdir)
  have 3: "fst (mirror_file e reg s dst tags ts ow u pw mime n dl w) = Inr False \<and>
      count is_fetch (snd (mirror_file e reg s dst tags ts ow u pw mime n dl w)) =
        count is_fetch w + nat n" if dl: "sleepable e dl \<or> n \<le> 1"
  proof (cases "1 \<le> n")
    case True
    with dl have dl': "sleepable e dl \<or> n = 1" by auto
    have "never_succeeds file_ok dl ?op ?w0 (nat n)"
      by (rule never_succeeds_always) (simp add: file_ok_def nt)
    from mirror_file_exhausted [OF dl' True this] show ?thesis by simp
  next
    case False
    then have "[1..n] = []" by simp
    with False show ?thesis
      by (simp add: mirror_file_unfold count_cleanup count_make_tmpdir)
  qed
  from 1 2 3 show ?thesis by blast
qed

text \<open>
  The stronger statement of the specification (no network fetch is attempted for such
  a job) fails: with
  the single step \<^verbatim>\<open>{"type": "bzip2"}\<close> and one attempt, the source is downloaded.
\<close>

theorem unknown_transform_fetches_counterexample:
  "list_ex (unregistered (TRANSFORMERS demo_env)) [[(''type'', ''bzip2'')]] \<and>
   count is_fetch (snd (mirror_file demo_env (TRANSFORMERS demo_env)
       ''https://example.com/a/data.gz'' ''ghcr.io/{{GITHUB_REPOSITORY_OWNER}}/data''
       [''latest''] [[(''type'', ''bzip2'')]] ''acme'' ''bot'' ''tok'' None 1 1 demo_world))
     \<noteq> count is_fetch demo_world"
  by code_simp

theorem unknown_transform_fails_after_fetch_witness:
  "list_ex (unregistered (TRANSFORMERS demo_env)) [[(''type'', ''bzip2'')]] \<and>
   fst (mirror_file demo_env (TRANSFORMERS demo_env)
       ''https://example.com/a/data.gz'' ''ghcr.io/{{GITHUB_REPOSITORY_OWNER}}/data''
       [''latest''] [[(''type'', ''bzip2'')]] ''acme'' ''bot'' ''tok'' None 2 1 demo_world) = Inr False \<and>
   count is_push (snd (mirror_file demo_env (TRANSFORMERS demo_env)
       ''https://example.com/a/data.gz'' ''ghcr.io/{{GITHUB_REPOSITORY_OWNER}}/data''
       [''latest''] [[(''type'', ''bzip2'')]] ''acme'' ''bot'' ''tok'' None 2 1 demo_world)) = 0 \<and>
   count is_fetch (snd (mirror_file demo_env (TRANSFORMERS demo_env)
       ''https://example.com/a/data.gz'' ''ghcr.io/{{GITHUB_REPOSITORY_OWNER}}/data''
       [''latest''] [[(''type'', ''bzip2'')]] ''acme'' ''bot'' ''tok'' None 2 1 demo_world)) = 2"
proof -
  have h: "list_ex (unregistered (TRANSFORMERS demo_env)) [[(''type'', ''bzip2'')]]"
    by code_simp
  have c0: "count is_push demo_world = 0" "count is_fetch demo_world = 0"
    by (simp_all add: count_def demo_world_def)
  from unknown_transform_fails_after_fetch [OF h, where e = demo_env
      and s = "''https://example.com/a/data.gz''"
      and dst = "''ghcr.io/{{GITHUB_REPOSITORY_OWNER}}/data''" and tags = "[''latest'']"
      and ow = "''acme''" and u = "''bot''" and pw = "''tok''" and mime = None and n = 2
      and dl = 1 and w = demo_world] h c0
  show ?thesis by (simp add: sleepable_def demo_env_def)
qed

section \<open>The temporary directory of a file job\<close>

lemma split_on_no_sep: "seg \<in> set (split_on c s) \<Longrightarrow> c \<notin> set seg"
proof (induction s arbitrary: seg)
  case Nil
  then show ?case by simp
next
  case (Cons x xs)
  show ?case
  proof (cases "x = c")
    case True
    with Cons show ?thesis by auto
  next
    case False
    obtain w ws where sp: "split_on c xs = w # ws"
      using split_on_nonempty [of c xs] by (cases "split_on c xs") auto
    with Cons.IH have "c \<notin> set w" and "\<And>v. v \<in> set ws \<Longrightarrow> c \<notin> set v" by auto
    with Cons.prems False sp show ?thesis by auto
  qed
qed

lemma filename_no_slash: "CHR ''/'' \<notin> set (last (split_on CHR ''/'' s))"
  using split_on_no_sep [of "last (split_on CHR ''/'' s)" "CHR ''/''" s] split_on_nonempty
  by simp

lemma download_path_in_tmpdir: "prefix t (path_join t (last (split_on CHR ''/'' s)))"
proof -
  let ?f = "last (split_on CHR ''/'' s)"
  have "\<not> (?f \<noteq> [] \<and> hd ?f = CHR ''/'')"
    using filename_no_slash [of s] by (cases ?f) auto
  then show ?thesis by (auto simp add: path_join_def)
qed

lemma extends_file_operation_job:
  "extends (job_event s p) w (snd (file_operation e reg s p dst tags ts ow u pw mime w))"
  using file_operation_cases [of e reg s p dst tags ts ow u pw mime w]
  by (auto simp add: extends_def)

lemma trace_make_tmpdir:
  "trace (snd (make_tmpdir e w)) = trace w @ [EvMkTmp (mkdtemp e (count is_mktmp w))]"
  by (simp add: make_tmpdir_def Let_def)

lemma fst_make_tmpdir: "fst (make_tmpdir e w) = mkdtemp e (count is_mktmp w)"
  by (simp add: make_tmpdir_def Let_def)

lemma trace_cleanup: "trace (cleanup t w) = trace w @ [EvRmTmp t]"
  by (simp add: cleanup_def)

lemma disk_cleanup: "prefix t p \<Longrightarrow> disk (cleanup t w) p = None"
  by (simp add: cleanup_def)

text \<open>
  C7. Whatever \<^verbatim>\<open>mirror_file\<close> returns or raises: its first effect is making the
  temporary directory, its last effect is removing that same directory, and nothing
  is left on disk at or below it. In between no other directory is made or removed;
  every download of every attempt goes to the one download path, the directory's path
  extended by the file name of the source.
\<close>

theorem temporary_directory_scoped:
  "\<exists>evs. trace (snd (mirror_file e reg s dst tags ts ow u pw mime n dl w)) =
            trace w @ [EvMkTmp (mkdtemp e (count is_mktmp w))] @ evs @
              [EvRmTmp (mkdtemp e (count is_mktmp w))] \<and>
          list_all (job_event s
            (path_join (mkdtemp e (count is_mktmp w)) (last (split_on CHR ''/'' s)))) evs \<and>
          prefix (mkdtemp e (count is_mktmp w))
            (path_join (mkdtemp e (count is_mktmp w)) (last (split_on CHR ''/'' s))) \<and>
          (\<forall>p. prefix (mkdtemp e (count is_mktmp w)) p \<longrightarrow>
             disk (snd (mirror_file e reg s dst tags ts ow u pw mime n dl w)) p = None)"
proof -
  let ?t = "mkdtemp e (count is_mktmp w)"
  let ?p = "path_join ?t (last (split_on CHR ''/'' s))"
  let ?it = "mirror_file_iteration e reg s ?p dst tags ts ow u pw mime n dl"
  let ?w0 = "snd (make_tmpdir e w)"
  let ?w1 = "snd (attempts_loop ?it [1..n] ?w0)"
  have "extends (job_event s ?p) ?w0 ?w1"
    by (rule extends_attempts_loop)
      (rule extends_file_iteration, rule extends_file_operation_job, simp)
  then obtain evs where evs: "trace ?w1 = trace ?w0 @ evs" "list_all (job_event s ?p) evs"
    by (auto simp add: extends_def)
  have m: "snd (mirror_file e reg s dst tags ts ow u pw mime n dl w) = cleanup ?t ?w1"
    by (simp add: mirror_file_unfold fst_make_tmpdir)
  from evs have "trace (cleanup ?t ?w1) = trace w @ [EvMkTmp ?t] @ evs @ [EvRmTmp ?t]"
    by (simp add: trace_cleanup trace_make_tmpdir)
  with m evs(2) download_path_in_tmpdir [of ?t s] show ?thesis
    by (auto simp add: disk_cleanup)
qed

theorem temporary_directory_scoped_witness:
  "fst (mirror_file demo_env (TRANSFORMERS demo_env) ''https://example.com/a/data.gz''
       ''ghcr.io/{{GITHUB_REPOSITORY_OWNER}}/data'' [''latest''] [[(''type'', ''gunzip'')]]
       ''acme'' ''bot'' ''tok'' None 3 1 demo_world) = Inr True \<and>
   (\<exists>evs. trace (snd (mirror_file demo_env (TRANSFORMERS demo_env) ''https://example.com/a/data.gz''
       ''ghcr.io/{{GITHUB_REPOSITORY_OWNER}}/data'' [''latest''] [[(''type'', ''gunzip'')]]
       ''acme'' ''bot'' ''tok'' None 3 1 demo_world)) =
         [EvMkTmp [''tmp'', ''job'']] @ evs @ [EvRmTmp [''tmp'', ''job'']] \<and>
       list_all (job_event ''https://example.com/a/data.gz'' [''tmp'', ''job'', ''data.gz'']) evs) \<and>
   disk (snd (mirror_file demo_env (TRANSFORMERS demo_env) ''https://example.com/a/data.gz''
       ''ghcr.io/{{GITHUB_REPOSITORY_OWNER}}/data'' [''latest''] [[(''type'', ''gunzip'')]]
       ''acme'' ''bot'' ''tok'' None 3 1 demo_world)) [''tmp'', ''job'', ''data''] = None \<and>
   fst (mirror_file (demo_env\<lparr>http_get := \<lambda>n url. FetchRaises\<rparr>) (TRANSFORMERS demo_env)
       ''https://example.com/a/data.gz'' ''ghcr.io/{{GITHUB_REPOSITORY_OWNER}}/data'' [''latest'']
       [[(''type'', ''gunzip'')]] ''acme'' ''bot'' ''tok'' None 2 (- 1) demo_world) =
     Inl (ValueError ''sleep length must be non-negative'') \<and>
   (\<exists>evs. trace (snd (mirror_file (demo_env\<lparr>http_get := \<lambda>n url. FetchRaises\<rparr>)
       (TRANSFORMERS demo_env)
       ''https://example.com/a/data.gz'' ''ghcr.io/{{GITHUB_REPOSITORY_OWNER}}/data'' [''latest'']
       [[(''type'', ''gunzip'')]] ''acme'' ''bot'' ''tok'' None 2 (- 1) demo_world)) =
         [EvMkTmp [''tmp'', ''job'']] @ evs @ [EvRmTmp [''tmp'', ''job'']])"
proof -
  let ?e4 = "demo_env\<lparr>http_get := \<lambda>n url. FetchRaises\<rparr>"
  have c0: "trace demo_world = []" "mkdtemp demo_env n = [''tmp'', ''job'']"
    "mkdtemp ?e4 n = [''tmp'', ''job'']" for n
    by (simp_all add: demo_world_def demo_env_def)
  have pj: "path_join [''tmp'', ''job''] (last (split_on CHR ''/'' ''https://example.com/a/data.gz''))
      = [''tmp'', ''job'', ''data.gz'']"
    by code_simp
  have pf: "prefix [''tmp'', ''job''] [''tmp'', ''job'', ''data'']" by simp
  have r1: "fst (mirror_file demo_env (TRANSFORMERS demo_env) ''https://example.com/a/data.gz''
       ''ghcr.io/{{GITHUB_REPOSITORY_OWNER}}/data'' [''latest''] [[(''type'', ''gunzip'')]]
       ''acme'' ''bot'' ''tok'' None 3 1 demo_world) = Inr True"
    by code_simp
  have r2: "fst (mirror_file ?e4 (TRANSFORMERS demo_env)
       ''https://example.com/a/data.gz'' ''ghcr.io/{{GITHUB_REPOSITORY_OWNER}}/data'' [''latest'']
       [[(''type'', ''gunzip'')]] ''acme'' ''bot'' ''tok'' None 2 (- 1) demo_world) =
     Inl (ValueError ''sleep length must be non-negative'')"
    by code_simp
  from temporary_directory_scoped [where e = demo_env and reg = "TRANSFORMERS demo_env"
      and s = "''https://example.com/a/data.gz''"
      and dst = "''ghcr.io/{{GITHUB_REPOSITORY_OWNER}}/data''" and tags = "[''latest'']"
      and ts = "[[(''type'', ''gunzip'')]]" and ow = "''acme''" and u = "''bot''"
      and pw = "''tok''" and mime = None and n = 3 and dl = 1 and w = demo_world]
    temporary_directory_scoped [where e = ?e4 and reg = "TRANSFORMERS demo_env"
      and s = "''https://example.com/a/data.gz''"
      and dst = "''ghcr.io/{{GITHUB_REPOSITORY_OWNER}}/data''" and tags = "[''latest'']"
      and ts = "[[(''type'', ''gunzip'')]]" and ow = "''acme''" and u = "''bot''"
      and pw = "''tok''" and mime = None and n = 2 and dl = "- 1" and w = demo_world]
    r1 r2 pf
  show ?thesis unfolding c0 pj by (simp only: append_Nil) blast
qed

section \<open>Destination templating\<close>

lemma extends_make_tmpdir:
  "Q (EvMkTmp (mkdtemp e (count is_mktmp w))) \<Longrightarrow> extends Q w (snd (make_tmpdir e w))"
  by (simp add: make_tmpdir_def Let_def extends_emit)

lemma extends_cleanup: "Q (EvRmTmp t) \<Longrightarrow> extends Q w (cleanup t w)"
  by (simp add: cleanup_def extends_emit)

lemma extends_mirror_file:
  assumes "\<And>p w. extends Q w (snd (file_operation e reg s p dst tags ts ow u pw mime w))"
    and "Q (EvSleep dl)" and "\<And>t. Q (EvMkTmp t)" and "\<And>t. Q (EvRmTmp t)"
  shows "extends Q w (snd (mirror_file e reg s dst tags ts ow u pw mime n dl w))"
proof -
  let ?t = "fst (make_tmpdir e w)"
  let ?p = "path_join ?t (last (split_on CHR ''/'' s))"
  let ?it = "mirror_file_iteration e reg s ?p dst tags ts ow u pw mime n dl"
  let ?w0 = "snd (make_tmpdir e w)"
  let ?w1 = "snd (attempts_loop ?it [1..n] ?w0)"
  have 0: "extends Q w ?w0" by (rule extends_make_tmpdir) (rule assms(3))
  have 1: "extends Q ?w0 ?w1"
    by (rule extends_attempts_loop) (rule extends_file_iteration, rule assms(1), rule assms(2))
  have 2: "extends Q ?w1 (cleanup ?t ?w1)" by (rule extends_cleanup) (rule assms(4))
  from 0 1 2 have "extends Q w (cleanup ?t ?w1)" by (blast intro: extends_trans)
  then show ?thesis by (simp add: mirror_file_unfold)
qed

lemma extends_mirror_image:
  assumes "\<And>r. Q (EvCopy (image_cmd s dst tag ow u pw) r)" and "Q (EvSleep dl)"
  shows "extends Q w (snd (mirror_image e s dst tag ow u pw n dl w))"
  unfolding mirror_image_def mirror_image_attempts_loop
  by (rule extends_attempts_loop) (rule extends_image_iteration, rule assms(1), rule assms(2))

lemma extends_mirror_tags:
  assumes "\<And>tag r. tag \<in> set tags \<Longrightarrow> Q (EvCopy (image_cmd s dst tag ow u pw) r)"
    and "Q (EvSleep dl)"
  shows "extends Q w (snd (mirror_tags e s dst ow u pw n dl tags f w))"
  using assms(1)
proof (induction tags arbitrary: f w)
  case Nil
  show ?case by simp
next
  case (Cons tag tags)
  obtain r w1 where m: "mirror_image e s dst tag ow u pw n dl w = (r, w1)"
    by (cases "mirror_image e s dst tag ow u pw n dl w")
  have "extends Q w (snd (mirror_image e s dst tag ow u pw n dl w))"
    by (rule extends_mirror_image) (simp_all add: Cons.prems assms(2))
  with m have e1: "extends Q w w1" by simp
  show ?case
  proof (cases r)
    case (Inl x)
    with m e1 show ?thesis by simp
  next
    case (Inr ok)
    have "extends Q w1 (snd (mirror_tags e s dst ow u pw n dl tags
        (if \<not> ok then f + 1 else f) w1))"
      by (rule Cons.IH) (simp add: Cons.prems)
    with m Inr e1 show ?thesis by (auto intro: extends_trans)
  qed
qed

lemma image_cmd_dest:
  "image_cmd s dst tag ow u pw ! 5 = ''docker://'' @ replace PLACEHOLDER ow dst @ '':'' @ tag"
  by (simp add: image_cmd_def copy_cmd_def Let_def)

lemma push_cmd_ref:
  "push_cmd q dst tags ow mime ! 3 = replace PLACEHOLDER ow dst @ '':'' @ join '','' tags"
  by (simp add: push_cmd_def Let_def)

lemma replace_placeholder_token:
  assumes "CHR ''{'' \<notin> set a"
  shows "replace PLACEHOLDER ow (a @ PLACEHOLDER @ b) = a @ ow @ replace PLACEHOLDER ow b"
proof -
  obtain ph where ph: "PLACEHOLDER = CHR ''{'' # ph" by (simp add: PLACEHOLDER_def)
  have "replace (CHR ''{'' # ph) ow (a @ (CHR ''{'' # ph) @ b) =
          a @ ow @ replace (CHR ''{'' # ph) ow b"
    using assms by (induction a) auto
  then show ?thesis by (simp only: ph)
qed

text \<open>
  C6. Both call sites that receive a destination substitute the owner for the
  placeholder before they build the reference. Every copy that \<^verbatim>\<open>main\<close>'s loop
  over the tags of an image configuration starts, for however many tags, copies to
  \<^verbatim>\<open>docker://<resolved>:<tag>\<close> for one of the tags; every push of a file job pushes
  to \<^verbatim>\<open><resolved>:<tags joined by commas>\<close>. The substitution is literal: text
  before the token (free of braces) stays, the token becomes the owner, the rest is
  treated alike; the spec's example resolves to \<^verbatim>\<open>ghcr.io/acme/x\<close>.
\<close>

theorem destination_resolved_at_every_call_site:
  "extends (copy_resolved (replace PLACEHOLDER ow dst) tags) w
     (snd (mirror_tags e s dst ow u pw n dl tags f w)) \<and>
   extends (push_resolved (replace PLACEHOLDER ow dst @ '':'' @ join '','' tags)) w
     (snd (mirror_file e reg s dst tags ts ow u pw mime n dl w)) \<and>
   image_cmd s dst tag ow u pw ! 5 = ''docker://'' @ replace PLACEHOLDER ow dst @ '':'' @ tag \<and>
   push_cmd q dst tags ow mime ! 3 = replace PLACEHOLDER ow dst @ '':'' @ join '','' tags \<and>
   (CHR ''{'' \<notin> set a \<longrightarrow>
      replace PLACEHOLDER ow (a @ PLACEHOLDER @ b) = a @ ow @ replace PLACEHOLDER ow b) \<and>
   replace PLACEHOLDER ''acme'' ''ghcr.io/{{GITHUB_REPOSITORY_OWNER}}/x'' = ''ghcr.io/acme/x''"
proof (intro conjI impI)
  show "extends (copy_resolved (replace PLACEHOLDER ow dst) tags) w
     (snd (mirror_tags e s dst ow u pw n dl tags f w))"
    by (rule extends_mirror_tags) (auto simp add: image_cmd_dest list_ex_iff)
  show "extends (push_resolved (replace PLACEHOLDER ow dst @ '':'' @ join '','' tags)) w
     (snd (mirror_file e reg s dst tags ts ow u pw mime n dl w))"
  proof (rule extends_mirror_file)
    fix p w'
    show "extends (push_resolved (replace PLACEHOLDER ow dst @ '':'' @ join '','' tags)) w'
        (snd (file_operation e reg s p dst tags ts ow u pw mime w'))"
      using file_operation_cases [of e reg s p dst tags ts ow u pw mime w']
      by (auto simp add: extends_def push_cmd_ref)
  qed simp_all
  show "replace PLACEHOLDER ''acme'' ''ghcr.io/{{GITHUB_REPOSITORY_OWNER}}/x'' = ''ghcr.io/acme/x''"
    by code_simp
qed (simp_all add: image_cmd_dest push_cmd_ref replace_placeholder_token)

theorem destination_resolved_at_every_call_site_witness:
  "extends (copy_resolved ''ghcr.io/acme/nginx'' [''v1'', ''v2'']) demo_world
     (snd (mirror_tags demo_env ''docker.io/nginx'' ''ghcr.io/{{GITHUB_REPOSITORY_OWNER}}/nginx''
        ''acme'' ''bot'' ''tok'' 2 1 [''v1'', ''v2''] 0 demo_world)) \<and>
   extends (push_resolved ''ghcr.io/acme/data:latest,v1'') demo_world
     (snd (mirror_file demo_env (TRANSFORMERS demo_env) ''https://example.com/a/data.gz''
        ''ghcr.io/{{GITHUB_REPOSITORY_OWNER}}/data'' [''latest'', ''v1'']
        [[(''type'', ''gunzip'')]] ''acme'' ''bot'' ''tok'' None 2 1 demo_world)) \<and>
   CHR ''{'' \<notin> set ''ghcr.io/'' \<and>
   replace PLACEHOLDER ''acme'' (''ghcr.io/'' @ PLACEHOLDER @ ''/x'') = ''ghcr.io/acme/x''"
proof -
  have r1: "replace PLACEHOLDER ''acme'' ''ghcr.io/{{GITHUB_REPOSITORY_OWNER}}/nginx'' =
      ''ghcr.io/acme/nginx''"
    by code_simp
  have r2: "replace PLACEHOLDER ''acme'' ''ghcr.io/{{GITHUB_REPOSITORY_OWNER}}/data'' @ '':'' @
      join '','' [''latest'', ''v1''] = ''ghcr.io/acme/data:latest,v1''"
    by code_simp
  have r3: "replace PLACEHOLDER ''acme'' ''/x'' = ''/x''"
    by code_simp
  have h: "CHR ''{'' \<notin> set ''ghcr.io/''" by simp
  from destination_resolved_at_every_call_site [where ow = "''acme''"
      and dst = "''ghcr.io/{{GITHUB_REPOSITORY_OWNER}}/nginx''" and tags = "[''v1'', ''v2'']"
      and w = demo_world and e = demo_env and s = "''docker.io/nginx''" and u = "''bot''"
      and pw = "''tok''" and n = 2 and dl = 1 and f = 0]
  have 1: "extends (copy_resolved ''ghcr.io/acme/nginx'' [''v1'', ''v2'']) demo_world
     (snd (mirror_tags demo_env ''docker.io/nginx'' ''ghcr.io/{{GITHUB_REPOSITORY_OWNER}}/nginx''
        ''acme'' ''bot'' ''tok'' 2 1 [''v1'', ''v2''] 0 demo_world))"
    unfolding r1 by blast
  from destination_resolved_at_every_call_site [where ow = "''acme''"
      and dst = "''ghcr.io/{{GITHUB_REPOSITORY_OWNER}}/data''" and tags = "[''latest'', ''v1'']"
      and w = demo_world and e = demo_env and reg = "TRANSFORMERS demo_env"
      and s = "''https://example.com/a/data.gz''" and ts = "[[(''type'', ''gunzip'')]]"
      and u = "''bot''" and pw = "''tok''" and mime = None and n = 2 and dl = 1
      and a = "''ghcr.io/''" and b = "''/x''"]
  have 2: "extends (push_resolved ''ghcr.io/acme/data:latest,v1'') demo_world
     (snd (mirror_file demo_env (TRANSFORMERS demo_env) ''https://example.com/a/data.gz''
        ''ghcr.io/{{GITHUB_REPOSITORY_OWNER}}/data'' [''latest'', ''v1'']
        [[(''type'', ''gunzip'')]] ''acme'' ''bot'' ''tok'' None 2 1 demo_world))"
    and 3: "CHR ''{'' \<notin> set ''ghcr.io/'' \<longrightarrow>
      replace PLACEHOLDER ''acme'' (''ghcr.io/'' @ PLACEHOLDER @ ''/x'') =
        ''ghcr.io/'' @ ''acme'' @ replace PLACEHOLDER ''acme'' ''/x''"
    unfolding r2 by blast+
  from 3 h r3 have "replace PLACEHOLDER ''acme'' (''ghcr.io/'' @ PLACEHOLDER @ ''/x'') =
      ''ghcr.io/acme/x''"
    by simp
  with 1 2 h show ?thesis by blast
qed

section \<open>Login and the order of the phases\<close>

lemma attempts_loop_no_raise:
  assumes "\<And>a w. \<not> isl (fst (it a w))"
  shows "\<not> isl (fst (attempts_loop it as w))"
proof (induction as arbitrary: w)
  case Nil
  show ?case by simp
next
  case (Cons a as)
  obtain r w1 where i: "it a w = (r, w1)" by (cases "it a w")
  with assms [of a w] have "\<not> isl r" by simp
  with i Cons.IH [of w1] show ?case
    by (auto split: sum.splits option.splits)
qed

lemma mirror_image_iteration_no_raise:
  "sleepable e d \<Longrightarrow> \<not> isl (fst (mirror_image_iteration e c n d a w))"
  using mirror_image_iteration_ok [of e c w n d a] mirror_image_iteration_fail [where d = d and a = a and n = n and e = e and c = c and w = w]
  by (cases "fst (skopeo_copy e c w) = Exited 0") simp_all


lemma mirror_image_no_raise:
  assumes "sleepable e dl"
  shows "\<not> isl (fst (mirror_image e s dst tag ow u pw n dl w))"
  unfolding mirror_image_def mirror_image_attempts_loop
  by (rule attempts_loop_no_raise) (rule mirror_image_iteration_no_raise, rule assms)


lemma extends_mirror_docker:
  assumes "\<And>c r. Q (EvCopy c r)" and "Q (EvSleep dl)"
  shows "extends Q w (snd (mirror_docker e ow u pw n dl mirrors f w))"
proof (induction mirrors arbitrary: f w)
  case Nil
  show ?case by simp
next
  case (Cons m mirrors)
  obtain r w1 where t: "mirror_tags e (cfg_source m) (cfg_destination m) ow u pw n dl
      (cfg_tags m) f w = (r, w1)"
    by (cases "mirror_tags e (cfg_source m) (cfg_destination m) ow u pw n dl (cfg_tags m) f w")
  have "extends Q w (snd (mirror_tags e (cfg_source m) (cfg_destination m) ow u pw n dl
      (cfg_tags m) f w))"
    by (rule extends_mirror_tags) (simp_all add: assms)
  with t have e1: "extends Q w w1" by simp
  show ?case
  proof (cases r)
    case (Inl x)
    with t e1 show ?thesis by simp
  next
    case (Inr f')
    with t e1 Cons.IH [where f = f' and w = w1] show ?thesis by (auto intro: extends_trans)
  qed
qed

lemma extends_file_operation_phase:
  "extends file_phase_event w (snd (file_operation e reg s p dst tags ts ow u pw mime w))"
  using file_operation_cases [of e reg s p dst tags ts ow u pw mime w]
  by (auto simp add: extends_def)

lemma extends_mirror_files:
  "extends file_phase_event w (snd (mirror_files e ow u pw n dl fcs f w))"
proof (induction fcs arbitrary: f w)
  case Nil
  show ?case by simp
next
  case (Cons fc fcs)
  let ?m = "mirror_file e (TRANSFORMERS e) (cfg_source fc) (cfg_destination fc)
      (cfg_tags fc) (cfg_transforms fc) ow u pw (cfg_mime fc) n dl w"
  obtain r w1 where t: "?m = (r, w1)" by (cases ?m)
  have "extends file_phase_event w (snd ?m)"
    by (rule extends_mirror_file) (simp_all add: extends_file_operation_phase)
  with t have e1: "extends file_phase_event w w1" by simp
  show ?case
  proof (cases r)
    case (Inl x)
    with t e1 show ?thesis by simp
  next
    case (Inr ok)
    with t e1 Cons.IH [where f = "if \<not> ok then f + 1 else f" and w = w1] show ?thesis
      by (auto intro: extends_trans)
  qed
qed

lemma failures_simps [simp]:
  "failures [] = 0"
  "failures (r # rs) = (if r = Inr False then 1 else 0) + failures rs"
  "failures (rs @ rs') = failures rs + failures rs'"
  by (simp_all add: failures_def)


lemma raised_simps [simp]:
  "raised [] = False"
  "raised (Inl x # rs) = True"
  "raised (Inr b # rs) = raised rs"
  by (simp_all add: raised_def)

lemma outcomes_append:
  "outcomes call (xs @ ys) w =
     (if raised (outcomes call xs w) then outcomes call xs w
      else outcomes call xs w @ outcomes call ys (final_world call xs w))"
  by (induction xs arbitrary: w) (auto split: prod.splits sum.splits)

lemma final_world_append:
  "final_world call (xs @ ys) w =
     (if raised (outcomes call xs w) then final_world call xs w
      else final_world call ys (final_world call xs w))"
  by (induction xs arbitrary: w) (auto split: prod.splits sum.splits)

lemma outcomes_map: "outcomes call (map g xs) w = outcomes (\<lambda>x. call (g x)) xs w"
  by (induction xs arbitrary: w) (auto split: prod.splits sum.splits)

lemma final_world_map: "final_world call (map g xs) w = final_world (\<lambda>x. call (g x)) xs w"
  by (induction xs arbitrary: w) (auto split: prod.splits sum.splits)

lemma tally_append:
  "tally f (rs @ rs') = (case tally f rs of Inl x \<Rightarrow> Inl x | Inr f' \<Rightarrow> tally f' rs')"
  by (induction f rs rule: tally.induct) simp_all

lemma tally_raised: "isl (tally f rs) = raised rs"
  by (induction f rs rule: tally.induct) simp_all

lemma tally_returned: "\<not> raised rs \<Longrightarrow> tally f rs = Inr (f + failures rs)"
  by (induction f rs rule: tally.induct) simp_all

lemma outcomes_no_raise:
  assumes "\<And>x w. \<not> isl (fst (call x w))"
  shows "\<not> raised (outcomes call xs w)"
proof (induction xs arbitrary: w)
  case Nil
  show ?case by simp
next
  case (Cons x xs)
  from assms [of x w] Cons.IH show ?case
    by (cases "call x w") (auto split: sum.splits)
qed


lemma mirror_tags_tally:
  "mirror_tags e s dst ow u pw n dl tags f w =
     (tally f (outcomes (\<lambda>tag. mirror_image e s dst tag ow u pw n dl) tags w),
      final_world (\<lambda>tag. mirror_image e s dst tag ow u pw n dl) tags w)"
proof (induction tags arbitrary: f w)
  case Nil
  show ?case by simp
next
  case (Cons tag tags)
  show ?case
    by (cases "mirror_image e s dst tag ow u pw n dl w")
      (auto simp add: Cons.IH split: sum.splits)
qed

lemma mirror_docker_tally:
  "mirror_docker e ow u pw (cfg_retry_attempts config) (cfg_retry_delay config) mirrors f w =
     (tally f (outcomes (image_call e config ow u pw)
                (concat (map (\<lambda>mirror. map (Pair mirror) (cfg_tags mirror)) mirrors)) w),
      final_world (image_call e config ow u pw)
        (concat (map (\<lambda>mirror. map (Pair mirror) (cfg_tags mirror)) mirrors)) w)"
proof (induction mirrors arbitrary: f w)
  case Nil
  show ?case by simp
next
  case (Cons m mirrors)
  let ?n = "cfg_retry_attempts config" and ?dl = "cfg_retry_delay config"
  let ?g = "\<lambda>tag. mirror_image e (cfg_source m) (cfg_destination m) tag ow u pw ?n ?dl"
  let ?rs = "outcomes ?g (cfg_tags m) w"
  let ?w1 = "final_world ?g (cfg_tags m) w"
  have t: "mirror_tags e (cfg_source m) (cfg_destination m) ow u pw ?n ?dl (cfg_tags m) f w =
      (tally f ?rs, ?w1)"
    by (rule mirror_tags_tally)
  have o: "outcomes (image_call e config ow u pw) (map (Pair m) (cfg_tags m)) w = ?rs"
    "final_world (image_call e config ow u pw) (map (Pair m) (cfg_tags m)) w = ?w1"
    by (simp_all add: outcomes_map final_world_map image_call_def)
  show ?case
  proof (cases "tally f ?rs")
    case (Inl x)
    with tally_raised [of f ?rs] have "raised ?rs" by simp
    with Inl show ?thesis
      by (simp add: t o outcomes_append final_world_append)
  next
    case (Inr f')
    with tally_raised [of f ?rs] have "\<not> raised ?rs" by simp
    with Inr show ?thesis
      by (simp add: t o outcomes_append final_world_append tally_append Cons.IH)
  qed
qed


lemma image_phase_eq:
  "mirror_docker e ow u pw (cfg_retry_attempts config) (cfg_retry_delay config)
     (cfg_docker config) 0 w =
     (tally 0 (image_results e config ow u pw w), after_images e config ow u pw w)"
  by (simp add: mirror_docker_tally image_results_def after_images_def image_units_def)

lemma image_results_no_raise:
  "sleepable e (cfg_retry_delay config) \<Longrightarrow> \<not> raised (image_results e config ow u pw w)"
  unfolding image_results_def
  by (rule outcomes_no_raise) (simp add: image_call_def mirror_image_no_raise)


lemma image_phase_event_not_login: "image_phase_event ev \<Longrightarrow> \<not> is_login ev"
  by (cases ev) simp_all

lemma oras_login_eq:
  "oras_login e u pw w =
     (case oras_login_tool e (count is_login w) (login_cmd u pw) of
        Raised \<Rightarrow> Inl OSError
      | Exited rc \<Rightarrow> Inr (rc = 0),
      emit (EvLogin (login_cmd u pw) (oras_login_tool e (count is_login w) (login_cmd u pw))) w)"
  by (simp add: oras_login_def login_cmd_def Let_def split: proc_outcome.splits)

text \<open>
  C4 (as amended). The trace of the mirroring phase of \<^verbatim>\<open>main\<close> is: the events of
  the image phase (copies and sleeps only, no login), then, only when there is a file
  configuration and no call of \<^verbatim>\<open>mirror_image\<close> ended with an exception, exactly one
  login, then the events of the file jobs (no copy and no second login among them). So
  the login is performed at most once, never before a copy and never without a file
  job; it is performed exactly once when there is a file job and the image phase came
  to its end, as it does with every delay that \<^verbatim>\<open>time.sleep\<close> accepts
  (\<open>sleepable\<close>: at least 0, at most 9223372036 seconds, and not refused by the
  platform). When the login does not exit with 0, nothing follows it (no file
  job is started, the login is not repeated) and the exit status is 1; the exit status
  is 1 as well when the image phase ended with an exception.
\<close>

theorem login_once_before_files:
  "\<exists>imgs fevs.
     list_all image_phase_event imgs \<and> list_all file_phase_event fevs \<and>
     trace (snd (main e config ow u pw w)) =
       trace w @ imgs @
         (if cfg_files config = [] \<or> raised (image_results e config ow u pw w) then []
          else EvLogin (login_cmd u pw)
                 (oras_login_tool e (count is_login w) (login_cmd u pw)) # fevs) \<and>
     (cfg_files config \<noteq> [] \<and> \<not> raised (image_results e config ow u pw w) \<and>
      oras_login_tool e (count is_login w) (login_cmd u pw) \<noteq> Exited 0 \<longrightarrow>
        fevs = [] \<and> fst (main e config ow u pw w) = 1) \<and>
     (raised (image_results e config ow u pw w) \<longrightarrow> fst (main e config ow u pw w) = 1) \<and>
     (sleepable e (cfg_retry_delay config) \<longrightarrow> \<not> raised (image_results e config ow u pw w))"
proof -
  let ?n = "cfg_retry_attempts config" and ?dl = "cfg_retry_delay config"
  let ?d = "mirror_docker e ow u pw ?n ?dl (cfg_docker config) 0 w"
  let ?irs = "image_results e config ow u pw w"
  obtain r1 w1 where d: "?d = (r1, w1)" by (cases ?d)
  with image_phase_eq [of e ow u pw config w] have r1: "r1 = tally 0 ?irs" by simp
  have sl: "sleepable e ?dl \<longrightarrow> \<not> raised ?irs"
    by (simp add: image_results_no_raise)
  have "extends image_phase_event w (snd ?d)"
    by (rule extends_mirror_docker) simp_all
  with d have ex1: "extends image_phase_event w w1" by simp
  then obtain imgs where imgs: "trace w1 = trace w @ imgs" "list_all image_phase_event imgs"
    by (auto simp add: extends_def)
  from ex1 have cl: "count is_login w1 = count is_login w"
    by (rule extends_count) (rule image_phase_event_not_login)
  show ?thesis
  proof (cases "raised ?irs")
    case True
    with r1 tally_raised [of 0 ?irs] have "isl r1" by simp
    then obtain x where "r1 = Inl x" by (cases r1) simp_all
    with d have "main e config ow u pw w = (1, w1)"
      by (simp add: main_def mirror_all_def)
    with imgs True sl show ?thesis
      by (intro exI [of _ imgs] exI [of _ "[]"]) simp
  next
    case nr: False
    with r1 have r1': "r1 = Inr (failures ?irs)" by (simp add: tally_returned)
    show ?thesis
    proof (cases "cfg_files config = []")
      case True
      with d r1' imgs nr sl show ?thesis
        by (intro exI [of _ imgs] exI [of _ "[]"]) (simp add: main_def mirror_all_def)
    next
      case False
      let ?lr = "oras_login_tool e (count is_login w) (login_cmd u pw)"
      let ?w2 = "emit (EvLogin (login_cmd u pw) ?lr) w1"
      have l: "oras_login e u pw w1 =
          (case ?lr of Raised \<Rightarrow> Inl OSError | Exited rc \<Rightarrow> Inr (rc = 0), ?w2)"
        by (simp add: oras_login_eq cl)
      show ?thesis
      proof (cases "?lr = Exited 0")
        case True
        let ?f = "mirror_files e ow u pw ?n ?dl (cfg_files config) (failures ?irs) ?w2"
        have "extends file_phase_event ?w2 (snd ?f)" by (rule extends_mirror_files)
        then obtain fevs where fevs: "trace (snd ?f) = trace ?w2 @ fevs"
            "list_all file_phase_event fevs"
          by (auto simp add: extends_def)
        have "snd (main e config ow u pw w) = snd ?f"
          using d r1' False l True
          by (cases ?f) (simp add: main_def mirror_all_def split: sum.splits)
        with fevs imgs False True nr sl show ?thesis
          by (intro exI [of _ imgs] exI [of _ fevs]) simp
      next
        case F: False
        have "main e config ow u pw w = (1, ?w2)"
          using d r1' False l F
          by (cases ?lr) (simp_all add: main_def mirror_all_def)
        with imgs False nr sl show ?thesis
          by (intro exI [of _ imgs] exI [of _ "[]"]) simp
      qed
    qed
  qed
qed

text \<open>
  The statement of the specification (exactly one login whenever there is a file job)
  fails for a delay of a retry policy that \<^verbatim>\<open>time.sleep\<close> refuses: with a delay of
  10000000000 seconds, two attempts and a copy tool that always exits with status 1,
  the first call of \<^verbatim>\<open>mirror_image\<close> ends with \<^verbatim>\<open>OverflowError\<close>; the process ends
  there with status 1, and although there is a file job, no login is performed.
\<close>

theorem login_skipped_counterexample:
  "cfg_files long_delay_config \<noteq> [] \<and> 0 \<le> cfg_retry_delay long_delay_config \<and>
   image_results failing_copy_env long_delay_config ''acme'' ''bot'' ''tok'' demo_world =
     [Inl OverflowError] \<and>
   count is_login
     (snd (main failing_copy_env long_delay_config ''acme'' ''bot'' ''tok'' demo_world)) = 0 \<and>
   fst (main failing_copy_env long_delay_config ''acme'' ''bot'' ''tok'' demo_world) = 1"
  by code_simp

theorem login_once_before_files_witness:
  "sleepable demo_env (cfg_retry_delay demo_config) \<and> cfg_files demo_config \<noteq> [] \<and>
   oras_login_tool (demo_env\<lparr>oras_login_tool := \<lambda>n c. Exited 1\<rparr>)
     (count is_login demo_world) (login_cmd ''bot'' ''tok'') \<noteq> Exited 0 \<and>
   (\<exists>imgs. list_all image_phase_event imgs \<and>
      trace (snd (main (demo_env\<lparr>oras_login_tool := \<lambda>n c. Exited 1\<rparr>) demo_config
               ''acme'' ''bot'' ''tok'' demo_world)) =
        imgs @ [EvLogin (login_cmd ''bot'' ''tok'') (Exited 1)]) \<and>
   fst (main (demo_env\<lparr>oras_login_tool := \<lambda>n c. Exited 1\<rparr>) demo_config
          ''acme'' ''bot'' ''tok'' demo_world) = 1 \<and>
   (\<exists>imgs fevs. list_all image_phase_event imgs \<and> list_all file_phase_event fevs \<and>
      trace (snd (main demo_env demo_config ''acme'' ''bot'' ''tok'' demo_world)) =
        imgs @ EvLogin (login_cmd ''bot'' ''tok'') (Exited 0) # fevs) \<and>
   raised (image_results failing_copy_env long_delay_config ''acme'' ''bot'' ''tok'' demo_world) \<and>
   (\<exists>imgs. list_all image_phase_event imgs \<and>
      trace (snd (main failing_copy_env long_delay_config ''acme'' ''bot'' ''tok'' demo_world)) =
        imgs) \<and>
   fst (main failing_copy_env long_delay_config ''acme'' ''bot'' ''tok'' demo_world) = 1"
proof -
  let ?e = "demo_env\<lparr>oras_login_tool := \<lambda>n c. Exited 1\<rparr>"
  have d: "sleepable demo_env (cfg_retry_delay demo_config)"
    "sleepable ?e (cfg_retry_delay demo_config)"
    by (simp_all add: demo_config_def demo_env_def sleepable_def)
  have f: "cfg_files demo_config \<noteq> []" by (simp add: demo_config_def)
  have l: "oras_login_tool ?e (count is_login demo_world) (login_cmd ''bot'' ''tok'') = Exited 1"
    "oras_login_tool demo_env (count is_login demo_world) (login_cmd ''bot'' ''tok'') = Exited 0"
    by (simp_all add: demo_env_def)
  have t: "trace demo_world = []" by (simp add: demo_world_def)
  have r: "raised (image_results failing_copy_env long_delay_config ''acme'' ''bot'' ''tok''
      demo_world)"
    by code_simp
  from login_once_before_files [where e = ?e and config = demo_config and u = "''bot''"
      and pw = "''tok''" and w = demo_world and ow = "''acme''"]
  have 1: "(\<exists>imgs. list_all image_phase_event imgs \<and>
      trace (snd (main ?e demo_config ''acme'' ''bot'' ''tok'' demo_world)) =
        imgs @ [EvLogin (login_cmd ''bot'' ''tok'') (Exited 1)]) \<and>
      fst (main ?e demo_config ''acme'' ''bot'' ''tok'' demo_world) = 1"
    unfolding l t using f d by auto
  from login_once_before_files [where e = demo_env and config = demo_config and u = "''bot''"
      and pw = "''tok''" and w = demo_world and ow = "''acme''"]
  have 2: "\<exists>imgs fevs. list_all image_phase_event imgs \<and> list_all file_phase_event fevs \<and>
      trace (snd (main demo_env demo_config ''acme'' ''bot'' ''tok'' demo_world)) =
        imgs @ EvLogin (login_cmd ''bot'' ''tok'') (Exited 0) # fevs"
    unfolding l t using f d by auto
  from login_once_before_files [where e = failing_copy_env and config = long_delay_config
      and u = "''bot''" and pw = "''tok''" and w = demo_world and ow = "''acme''"]
  have 3: "(\<exists>imgs. list_all image_phase_event imgs \<and>
      trace (snd (main failing_copy_env long_delay_config ''acme'' ''bot'' ''tok'' demo_world)) =
        imgs) \<and>
      fst (main failing_copy_env long_delay_config ''acme'' ''bot'' ''tok'' demo_world) = 1"
    unfolding t using r by auto
  from d(1) f l(1) 1 2 r 3 show ?thesis by simp
qed

section \<open>The exit status\<close>




section \<open>The gunzip round trip\<close>

lemma path_suffix_name: "path_suffix p \<noteq> [] \<Longrightarrow> path_name p \<noteq> []"
  by (auto simp add: path_suffix_def Let_def split: if_splits)

text \<open>
  When the name of the input has a suffix, the output is another file in the same
  directory, and what \<^verbatim>\<open>gunzip_transformer\<close> writes there is what the decoder makes
  of the input. With a decoder that inverts a compressor this is the round trip, and
  an input the decoder refuses makes the transformer raise.
\<close>

lemma gunzip_with_suffix:
  assumes "d p = Some (File z)" and "\<not> is_dir d p" and "path_suffix p \<noteq> []"
    and "with_suffix p [] = Inr q" and "\<not> is_dir d q"
  shows "q \<noteq> p \<and> butlast q = butlast p \<and>
         gunzip_transformer e p d =
           (case gzip_decode e z of
              Decoded b \<Rightarrow> (Inr q, d(q \<mapsto> File b))
            | Malformed b \<Rightarrow> (Inl BadGzipFile, d(q \<mapsto> File b)))"
proof -
  from with_suffix_empty_suffix [OF path_suffix_name [OF assms(3)] assms(3)] assms(4)
  have q: "q \<noteq> p" "butlast q = butlast p" by auto
  then have "(d(q \<mapsto> File [])) p = Some (File z)" using assms(1) by simp
  with assms q show ?thesis
    by (simp add: gunzip_transformer_def open_wb_def split: gz_result.splits)
qed

lemma gunzip_round_trip:
  assumes "\<And>b. gzip_decode e (compress b) = Decoded b"
    and "d p = Some (File (compress b))" and "\<not> is_dir d p" and "path_suffix p \<noteq> []"
    and "with_suffix p [] = Inr q" and "\<not> is_dir d q"
  shows "gunzip_transformer e p d = (Inr q, d(q \<mapsto> File b))"
  using gunzip_with_suffix [OF assms(2-6), of e] assms(1) by simp

lemma gunzip_refuses_malformed:
  assumes "gzip_decode e z = Malformed b"
    and "d p = Some (File z)" and "\<not> is_dir d p" and "path_suffix p \<noteq> []"
    and "with_suffix p [] = Inr q" and "\<not> is_dir d q"
  shows "fst (gunzip_transformer e p d) = Inl BadGzipFile"
  using gunzip_with_suffix [OF assms(2-6), of e] assms(1) by simp

text \<open>
  C5. The round trip (the output holds the bytes that were compressed, and an input
  that is not gzip raises a decode error) does not hold for an input whose name has no
  suffix, such as the download of a URL ending in \<^verbatim>\<open>/latest\<close>: the output path is
  the input path, opening it for writing empties the file before it is read, and
  since \<^verbatim>\<open>gzip\<close> reads an empty file as an empty stream, the transformer returns
  normally with an empty file, whatever the input held.
\<close>

theorem gunzip_without_suffix_empties_input:
  assumes "gzip_decode e [] = Decoded []"
    and "path_name p \<noteq> []" and "path_suffix p = []"
    and "d p = Some (File z)" and "\<not> is_dir d p"
  shows "gunzip_transformer e p d = (Inr p, d(p \<mapsto> File []))"
  using assms by (simp add: gunzip_in_place)

theorem gunzip_without_suffix_empties_input_witness:
  "gzip_decode demo_env [] = Decoded [] \<and>
   gzip_decode demo_env [0x1f, 0x8b, 1, 2, 3] = Decoded [1, 2, 3] \<and>
   path_name [''tmp'', ''job'', ''latest''] \<noteq> [] \<and>
   path_suffix [''tmp'', ''job'', ''latest''] = [] \<and>
   gunzip_transformer demo_env [''tmp'', ''job'', ''latest'']
       [[''tmp'', ''job''] \<mapsto> Dir,
        [''tmp'', ''job'', ''latest''] \<mapsto> File [0x1f, 0x8b, 1, 2, 3]] =
     (Inr [''tmp'', ''job'', ''latest''],
      [[''tmp'', ''job''] \<mapsto> Dir, [''tmp'', ''job'', ''latest''] \<mapsto> File []]) \<and>
   gzip_decode demo_env [7, 7] = Malformed [] \<and>
   gunzip_transformer demo_env [''tmp'', ''job'', ''README'']
       [[''tmp'', ''job''] \<mapsto> Dir, [''tmp'', ''job'', ''README''] \<mapsto> File [7, 7]] =
     (Inr [''tmp'', ''job'', ''README''],
      [[''tmp'', ''job''] \<mapsto> Dir, [''tmp'', ''job'', ''README''] \<mapsto> File []])"
proof -
  let ?p = "[''tmp'', ''job'', ''latest'']" and ?r = "[''tmp'', ''job'', ''README'']"
  let ?d = "[[''tmp'', ''job''] \<mapsto> Dir, ?p \<mapsto> File [0x1f, 0x8b, 1, 2, 3]]"
  let ?d' = "[[''tmp'', ''job''] \<mapsto> Dir, ?r \<mapsto> File [7, 7]]"
  have g: "gzip_decode demo_env [] = Decoded []"
    "gzip_decode demo_env [0x1f, 0x8b, 1, 2, 3] = Decoded [1, 2, 3]"
    "gzip_decode demo_env [7, 7] = Malformed []"
    by (simp_all add: demo_env_def demo_decode_def)
  have n: "path_name ?p \<noteq> []" "path_name ?r \<noteq> []" by (simp_all add: path_name_def)
  have s: "path_suffix ?p = []" "path_suffix ?r = []"
    by (simp_all add: path_suffix_def path_name_def rfind_def)
  have f: "?d ?p = Some (File [0x1f, 0x8b, 1, 2, 3])" "\<not> is_dir ?d ?p"
    "?d' ?r = Some (File [7, 7])" "\<not> is_dir ?d' ?r"
    by (simp_all add: is_dir_def)
  from gunzip_without_suffix_empties_input [OF g(1) n(1) s(1) f(1) f(2)]
    gunzip_without_suffix_empties_input [OF g(1) n(2) s(2) f(3) f(4)] g n s
  show ?thesis by simp
qed

lemma gunzip_round_trip_example:
  "gunzip_transformer demo_env [''tmp'', ''job'', ''data.gz'']
       [[''tmp'', ''job''] \<mapsto> Dir,
        [''tmp'', ''job'', ''data.gz''] \<mapsto> File [0x1f, 0x8b, 1, 2, 3]] =
     (Inr [''tmp'', ''job'', ''data''],
      [[''tmp'', ''job''] \<mapsto> Dir,
       [''tmp'', ''job'', ''data.gz''] \<mapsto> File [0x1f, 0x8b, 1, 2, 3],
       [''tmp'', ''job'', ''data''] \<mapsto> File [1, 2, 3]])"
proof -
  let ?p = "[''tmp'', ''job'', ''data.gz'']" and ?q = "[''tmp'', ''job'', ''data'']"
  let ?d = "[[''tmp'', ''job''] \<mapsto> Dir, ?p \<mapsto> File ([0x1f, 0x8b] @ [1, 2, 3])]"
  have c: "gzip_decode demo_env ([0x1f, 0x8b] @ b) = Decoded b" for b
    by (simp add: demo_env_def demo_decode_def)
  have s: "path_suffix ?p \<noteq> []" by (simp add: path_suffix_def path_name_def rfind_def)
  have w: "with_suffix ?p [] = Inr ?q"
    by (simp add: with_suffix_def path_suffix_def path_name_def rfind_def)
  have f: "?d ?p = Some (File ([0x1f, 0x8b] @ [1, 2, 3]))" "\<not> is_dir ?d ?p" "\<not> is_dir ?d ?q"
    by (simp_all add: is_dir_def)
  from gunzip_round_trip [where compress = "\<lambda>b. [0x1f, 0x8b] @ b", OF c f(1) f(2) s w f(3)]
  show ?thesis by simp
qed

end
